theory Spec2Isabelle
  imports Complex_Main "HOL-Library.Product_Lexorder"
begin

section \<open>JavaScript array helpers\<close>

text \<open>
  \<^verbatim>\<open>Array.prototype.findIndex\<close>: the index of the first element satisfying the
  callback; \<open>None\<close> stands for the result \<^verbatim>\<open>-1\<close>.
\<close>

fun findIndex :: "('a \<Rightarrow> bool) \<Rightarrow> 'a list \<Rightarrow> nat option" where
  "findIndex P [] = None"
| "findIndex P (x # xs) = (if P x then Some 0 else map_option Suc (findIndex P xs))"

text \<open>\<^verbatim>\<open>arr.splice(i, 1)\<close>: remove the element at index \<open>i\<close>.\<close>

definition splice1 :: "nat \<Rightarrow> 'a list \<Rightarrow> 'a list" where
  "splice1 i xs = take i xs @ drop (Suc i) xs"

text \<open>
  \<^verbatim>\<open>String.prototype.toLowerCase\<close> and \<^verbatim>\<open>trim\<close>, on the 8-bit characters of HOL strings:
  the letters A to Z are mapped to a to z, and blanks, tabs and line breaks are trimmed.
\<close>

definition lowerChar :: "char \<Rightarrow> char" where
  "lowerChar c = (let n = (of_char c :: nat) in if 65 \<le> n \<and> n \<le> 90 then char_of (n + 32) else c)"

definition toLowerCase :: "string \<Rightarrow> string" where
  "toLowerCase s = map lowerChar s"

definition isSpace :: "char \<Rightarrow> bool" where
  "isSpace c = ((of_char c :: nat) \<in> {9, 10, 11, 12, 13, 32})"

definition trim :: "string \<Rightarrow> string" where
  "trim s = rev (dropWhile isSpace (rev (dropWhile isSpace s)))"

section \<open>The store document: stock ledger and billing history\<close>

text \<open>
  The embedded medicine snapshot of a stock entry or of a bill line. A field that the
  JavaScript object may lack is an option (\<open>None\<close> is \<^verbatim>\<open>undefined\<close>). Quantities
  are integers. A price or an amount is a double, modelled by the rational number that it
  stands for; the arithmetic of doubles is defined with the analytics service, the only
  place of these operations where prices and amounts are computed with. Dates are
  milliseconds since the epoch.
\<close>

record medData =
  medID :: "string option"
  name :: string
  secName :: string
  sellingType :: string
  medType :: string
  pricePerTab :: rat
  cardPerBox :: int

record stockEntry =
  medData :: "medData option"
  quantity :: int
  expiryDate :: "int option"
  batchNumber :: string
  purchasePrice :: rat

text \<open>A line of a bill (an element of \<^verbatim>\<open>products\<close> and of \<^verbatim>\<open>productList\<close>).\<close>

record product =
  pmedData :: "medData option"
  pquantity :: int

record billing =
  customerName :: string
  customerAge :: int
  phone :: string
  productList :: "product list"
  totalAmount :: rat
  createdAt :: int

record store =
  storeEmail :: string
  stock :: "stockEntry list"
  billingHistory :: "billing list"

text \<open>The collection \<^verbatim>\<open>Stores\<close>, keyed by the unique \<^verbatim>\<open>storeEmail\<close>.\<close>

type_synonym stores = "string \<rightharpoonup> store"

text \<open>
  The thrown errors. \<^verbatim>\<open>createBilling\<close> appends the medicine ID to the message
  (\<^verbatim>\<open>MEDICINE_NOT_FOUND:id\<close>); \<^verbatim>\<open>removeFromStock\<close> throws the plain message.
\<close>

datatype error =
    STORE_NOT_FOUND
  | INVALID_QUANTITY
  | MEDICINE_NOT_FOUND "string option"
  | INSUFFICIENT_STOCK "string option"
  | MEDICINE_NOT_FOUND_plain
  | INSUFFICIENT_STOCK_plain
  | INVALID_PERIOD
  | MONGO_ERROR

text \<open>\<^verbatim>\<open>med.medData?.medID\<close> and \<^verbatim>\<open>product.medData?.medID\<close>.\<close>

definition medIDof :: "stockEntry \<Rightarrow> string option" where
  "medIDof med = (case medData med of None \<Rightarrow> None | Some d \<Rightarrow> medID d)"

definition pmedID :: "product \<Rightarrow> string option" where
  "pmedID p = (case pmedData p of None \<Rightarrow> None | Some d \<Rightarrow> medID d)"

text \<open>\<^verbatim>\<open>findStoreByEmail\<close>: the lookup of the stock-management operations.\<close>

definition findStoreByEmail :: "stores \<Rightarrow> string \<Rightarrow> store option" where
  "findStoreByEmail db email = db (trim (toLowerCase email))"

section \<open>The billing transaction\<close>

text \<open>
  The entry a bill line is deducted from: the first stock entry with the line's medicine
  ID (\<^verbatim>\<open>store.stock.findIndex(med => med.medData?.medID === medIdToFind)\<close>).
\<close>

definition stockIndex :: "stockEntry list \<Rightarrow> string option \<Rightarrow> nat option" where
  "stockIndex stk medIdToFind = findIndex (\<lambda>med. medIDof med = medIdToFind) stk"

text \<open>
  One iteration of the loop \<^verbatim>\<open>for (const product of products)\<close> of
  \<^verbatim>\<open>createBilling\<close>, on the in-memory document. A throw is \<open>Inl\<close>, and carries the
  in-memory ledger as it stands at the throw.
\<close>

definition deductLine ::
  "stockEntry list \<Rightarrow> product \<Rightarrow> (error \<times> stockEntry list) + stockEntry list" where
  "deductLine stk p =
     (let medIdToFind = pmedID p; quantityToDeduct = pquantity p in
      case stockIndex stk medIdToFind of
        None \<Rightarrow> Inl (MEDICINE_NOT_FOUND medIdToFind, stk)
      | Some i \<Rightarrow>
          if quantity (stk ! i) < quantityToDeduct
          then Inl (INSUFFICIENT_STOCK medIdToFind, stk)
          else
            (let stk1 = stk[i := (stk ! i)\<lparr>quantity := quantity (stk ! i) - quantityToDeduct\<rparr>]
             in if quantity (stk1 ! i) \<le> 0 then Inr (splice1 i stk1) else Inr stk1))"

fun deductStock ::
  "stockEntry list \<Rightarrow> product list \<Rightarrow> (error \<times> stockEntry list) + stockEntry list" where
  "deductStock stk [] = Inr stk"
| "deductStock stk (p # ps) =
     (case deductLine stk p of Inl e \<Rightarrow> Inl e | Inr stk' \<Rightarrow> deductStock stk' ps)"

text \<open>The request body of \<^verbatim>\<open>createBilling\<close>, with age and amount already numeric.\<close>

record billingData =
  bd_customerName :: string
  bd_customerAge :: int
  bd_phone :: string
  bd_products :: "product list"
  bd_totalAmount :: rat

record billingReceipt =
  r_customerName :: string
  r_totalAmount :: rat
  r_productCount :: nat

text \<open>
  \<^verbatim>\<open>createBilling(email, billingData)\<close>. The store document is loaded inside a
  transaction, changed in memory and written back by \<^verbatim>\<open>store.save\<close> followed by
  \<^verbatim>\<open>commitTransaction\<close>; a throw reaches \<^verbatim>\<open>abortTransaction\<close> before any write.
  The function returns the result and the collection as it is after the call; \<open>now\<close> is
  the value of \<^verbatim>\<open>new Date()\<close>. The generated \<^verbatim>\<open>billingId\<close> is left out of the
  receipt, and the write itself is taken to succeed.
\<close>

definition createBilling ::
  "stores \<Rightarrow> string \<Rightarrow> billingData \<Rightarrow> int \<Rightarrow> (error + billingReceipt) \<times> stores" where
  "createBilling db email bd now =
     (case db (toLowerCase email) of
        None \<Rightarrow> (Inl STORE_NOT_FOUND, db)
      | Some st \<Rightarrow>
          (case deductStock (stock st) (bd_products bd) of
             Inl (e, partial) \<Rightarrow> (Inl e, db)
           | Inr stk' \<Rightarrow>
               (let bill = \<lparr>customerName = bd_customerName bd,
                             customerAge = bd_customerAge bd,
                             phone = bd_phone bd,
                             productList = bd_products bd,
                             totalAmount = bd_totalAmount bd,
                             createdAt = now\<rparr>;
                    st' = st\<lparr>stock := stk', billingHistory := billingHistory st @ [bill]\<rparr>
                in (Inr \<lparr>r_customerName = bd_customerName bd,
                          r_totalAmount = bd_totalAmount bd,
                          r_productCount = length (bd_products bd)\<rparr>,
                    db(toLowerCase email \<mapsto> st')))))"

section \<open>Stock management: adding and removing\<close>

text \<open>
  The entry \<^verbatim>\<open>addToStock\<close> merges into. A batch number that is given (a non-empty
  string) is matched together with the medicine ID; otherwise the medicine ID alone.
\<close>

definition addExistingIndex ::
  "stockEntry list \<Rightarrow> string option \<Rightarrow> string option \<Rightarrow> nat option" where
  "addExistingIndex stk mid batch =
     (case batch of
        Some b \<Rightarrow>
          if b \<noteq> [] then findIndex (\<lambda>med. medIDof med = mid \<and> batchNumber med = b) stk
          else findIndex (\<lambda>med. medIDof med = mid) stk
      | None \<Rightarrow> findIndex (\<lambda>med. medIDof med = mid) stk)"

text \<open>The entry \<^verbatim>\<open>removeFromStock\<close> deducts from.\<close>

definition removeExistingIndex :: "stockEntry list \<Rightarrow> string option \<Rightarrow> nat option" where
  "removeExistingIndex stk mid = findIndex (\<lambda>med. medIDof med = mid) stk"

text \<open>
  The medicine data of an \<^verbatim>\<open>addToStock\<close> request. A numeric field is \<open>None\<close> when
  \<^verbatim>\<open>parseFloat\<close> or \<^verbatim>\<open>parseInt\<close> gives \<^verbatim>\<open>NaN\<close> on it.
\<close>

record medicineData =
  md_medID :: "string option"
  md_name :: string
  md_secName :: "string option"
  md_sellingType :: "string option"
  md_medType :: "string option"
  md_pricePerTab :: "rat option"
  md_cardPerBox :: "int option"
  md_pricePerBox :: "rat option"
  md_expiryDate :: "int option"
  md_batchNumber :: "string option"
  md_purchasePrice :: "rat option"

text \<open>\<^verbatim>\<open>x || y\<close> on numbers and on strings: the first operand unless it is falsy.\<close>

definition orNum :: "'a::zero option \<Rightarrow> 'a \<Rightarrow> 'a" where
  "orNum x d = (case x of None \<Rightarrow> d | Some v \<Rightarrow> if v = 0 then d else v)"

definition orStr :: "string option \<Rightarrow> string \<Rightarrow> string" where
  "orStr x d = (case x of None \<Rightarrow> d | Some v \<Rightarrow> if v = [] then d else v)"

record stockReceipt =
  sr_medID :: "string option"
  sr_quantity :: int
  sr_updated :: bool

definition addToStock ::
  "stores \<Rightarrow> string \<Rightarrow> medicineData \<Rightarrow> int option \<Rightarrow> (error + stockReceipt) \<times> stores" where
  "addToStock db email md qty =
     (case findStoreByEmail db email of
        None \<Rightarrow> (Inl STORE_NOT_FOUND, db)
      | Some st \<Rightarrow>
          (case qty of
             None \<Rightarrow> (Inl INVALID_QUANTITY, db)
           | Some quantityNum \<Rightarrow>
               if quantityNum < 1 then (Inl INVALID_QUANTITY, db)
               else
                 (case addExistingIndex (stock st) (md_medID md) (md_batchNumber md) of
                    Some i \<Rightarrow>
                      (let e = stock st ! i;
                           e1 = e\<lparr>quantity := quantity e + quantityNum\<rparr>;
                           e2 = (case md_expiryDate md of
                                   None \<Rightarrow> e1
                                 | Some d \<Rightarrow> e1\<lparr>expiryDate := Some d\<rparr>);
                           st' = st\<lparr>stock := (stock st)[i := e2]\<rparr>
                       in (Inr \<lparr>sr_medID = md_medID md, sr_quantity = quantity e2,
                                 sr_updated = True\<rparr>,
                           db(trim (toLowerCase email) \<mapsto> st')))
                  | None \<Rightarrow>
                      (let price = orNum (md_pricePerTab md) (orNum (md_pricePerBox md) 0);
                           e = \<lparr>medData = Some \<lparr>medID = md_medID md, name = md_name md,
                                    secName = orStr (md_secName md) [],
                                    sellingType = orStr (md_sellingType md) [],
                                    medType = orStr (md_medType md) [],
                                    pricePerTab = price,
                                    cardPerBox = orNum (md_cardPerBox md) 0\<rparr>,
                                quantity = quantityNum,
                                expiryDate = md_expiryDate md,
                                batchNumber = orStr (md_batchNumber md) [],
                                purchasePrice = orNum (md_purchasePrice md) 0\<rparr>;
                           st' = st\<lparr>stock := stock st @ [e]\<rparr>
                       in (Inr \<lparr>sr_medID = md_medID md, sr_quantity = quantityNum,
                                 sr_updated = False\<rparr>,
                           db(trim (toLowerCase email) \<mapsto> st'))))))"

record removeReceipt =
  rr_medID :: "string option"
  rr_removedQuantity :: int
  rr_remainingQuantity :: int
  rr_removed :: bool

definition removeFromStock ::
  "stores \<Rightarrow> string \<Rightarrow> string option \<Rightarrow> int option \<Rightarrow> (error + removeReceipt) \<times> stores" where
  "removeFromStock db email mid qty =
     (case findStoreByEmail db email of
        None \<Rightarrow> (Inl STORE_NOT_FOUND, db)
      | Some st \<Rightarrow>
          (case qty of
             None \<Rightarrow> (Inl INVALID_QUANTITY, db)
           | Some quantityNum \<Rightarrow>
               if quantityNum < 1 then (Inl INVALID_QUANTITY, db)
               else
                 (case removeExistingIndex (stock st) mid of
                    None \<Rightarrow> (Inl MEDICINE_NOT_FOUND_plain, db)
                  | Some i \<Rightarrow>
                      (let currentQuantity = quantity (stock st ! i) in
                       if quantityNum > currentQuantity then (Inl INSUFFICIENT_STOCK_plain, db)
                       else
                         (let newQuantity = currentQuantity - quantityNum;
                              stk' = (if newQuantity = 0 then splice1 i (stock st)
                                      else (stock st)[i := (stock st ! i)\<lparr>quantity := newQuantity\<rparr>]);
                              st' = st\<lparr>stock := stk'\<rparr>
                          in (Inr \<lparr>rr_medID = mid, rr_removedQuantity = quantityNum,
                                    rr_remainingQuantity = newQuantity,
                                    rr_removed = (newQuantity = 0)\<rparr>,
                              db(trim (toLowerCase email) \<mapsto> st')))))))"

section \<open>Quantities held and requested\<close>

text \<open>
  The quantity of a medicine held in a ledger (over all its entries), and the quantity of
  it that the lines of a bill request. They are used to state conservation.
\<close>

definition qtyOf :: "string option \<Rightarrow> stockEntry list \<Rightarrow> int" where
  "qtyOf m stk = sum_list (map quantity (filter (\<lambda>e. medIDof e = m) stk))"

definition requested :: "string option \<Rightarrow> product list \<Rightarrow> int" where
  "requested m ps = sum_list (map pquantity (filter (\<lambda>p. pmedID p = m) ps))"

text \<open>The entries of a medicine in a ledger, in the order of the ledger.\<close>

definition entriesOf :: "string option \<Rightarrow> stockEntry list \<Rightarrow> stockEntry list" where
  "entriesOf m stk = filter (\<lambda>e. medIDof e = m) stk"

section \<open>Example data\<close>

definition exMed :: "string \<Rightarrow> medData" where
  "exMed i = \<lparr>medID = Some i, name = i, secName = [], sellingType = [], medType = ''tablet'',
              pricePerTab = 2, cardPerBox = 10\<rparr>"

definition exEntry :: "string \<Rightarrow> string \<Rightarrow> int \<Rightarrow> stockEntry" where
  "exEntry i b q = \<lparr>medData = Some (exMed i), quantity = q, expiryDate = None,
                    batchNumber = b, purchasePrice = 1\<rparr>"

definition exLine :: "string \<Rightarrow> int \<Rightarrow> product" where
  "exLine i q = \<lparr>pmedData = Some (exMed i), pquantity = q\<rparr>"

definition exStore :: "stockEntry list \<Rightarrow> store" where
  "exStore stk = \<lparr>storeEmail = ''s@mims.in'', stock = stk, billingHistory = []\<rparr>"

definition exDb :: "stockEntry list \<Rightarrow> stores" where
  "exDb stk = [''s@mims.in'' \<mapsto> exStore stk]"

definition exBill :: "product list \<Rightarrow> billingData" where
  "exBill ps = \<lparr>bd_customerName = ''Asha'', bd_customerAge = 30, bd_phone = ''9000000000'',
                bd_products = ps, bd_totalAmount = 20\<rparr>"

section \<open>The JavaScript Date object\<close>

text \<open>
  A Date is its time value: milliseconds since 1970-01-01T00:00:00Z, an integer. The
  definitions follow the abstract operations of the ECMAScript specification (Day,
  TimeWithinDay, DayFromYear, YearFromTime, MonthFromTime, DateFromTime, WeekDay,
  MakeTime, MakeDay, MakeDate, LocalTime, UTC). The range limit of time values (TimeClip)
  is not modelled.
\<close>

definition msPerDay :: int where
  "msPerDay = 86400000"

definition Day :: "int \<Rightarrow> int" where
  "Day t = t div msPerDay"

definition TimeWithinDay :: "int \<Rightarrow> int" where
  "TimeWithinDay t = t mod msPerDay"

definition isLeap :: "int \<Rightarrow> bool" where
  "isLeap y = ((y mod 4 = 0 \<and> y mod 100 \<noteq> 0) \<or> y mod 400 = 0)"

definition DayFromYear :: "int \<Rightarrow> int" where
  "DayFromYear y = 365 * (y - 1970) + (y - 1969) div 4 - (y - 1901) div 100 + (y - 1601) div 400"

text \<open>The length of a year, by integer division one step at a time.\<close>

lemma div_succ:
  fixes n k :: int
  assumes "0 < k"
  shows "(n + 1) div k = n div k + (if (n + 1) mod k = 0 then 1 else 0)"
proof -
  have r: "0 \<le> n mod k" "n mod k < k" using assms by simp_all
  have e: "n + 1 = (n mod k + 1) + (n div k) * k" by simp
  have d: "(n + 1) div k = n div k + (n mod k + 1) div k"
    using assms by (subst e, subst div_mult_self1) auto
  have m: "(n + 1) mod k = (n mod k + 1) mod k"
    by (subst e, subst mod_mult_self1) simp
  show ?thesis
  proof (cases "n mod k + 1 = k")
    case True
    with d m assms show ?thesis by simp
  next
    case False
    with r have "n mod k + 1 < k" by simp
    with r d m show ?thesis by simp
  qed
qed

lemma mod_shift:
  fixes y c k :: int
  assumes "c mod k = 0"
  shows "(y - c) mod k = y mod k"
proof -
  have "(y - c) mod k = (y mod k - c mod k) mod k" by (rule mod_diff_eq [symmetric])
  with assms show ?thesis by simp
qed

lemma step4: "((y::int) - 1968) div 4 = (y - 1969) div 4 + (if y mod 4 = 0 then 1 else 0)"
  using div_succ [of 4 "y - 1969"] mod_shift [of 1968 4 y] by simp

lemma step100: "((y::int) - 1900) div 100 = (y - 1901) div 100 + (if y mod 100 = 0 then 1 else 0)"
  using div_succ [of 100 "y - 1901"] mod_shift [of 1900 100 y] by simp

lemma step400: "((y::int) - 1600) div 400 = (y - 1601) div 400 + (if y mod 400 = 0 then 1 else 0)"
  using div_succ [of 400 "y - 1601"] mod_shift [of 1600 400 y] by simp

lemma mod100_mod4: "(y::int) mod 100 = 0 \<Longrightarrow> y mod 4 = 0"
proof -
  assume "y mod 100 = 0"
  then have "100 dvd y" by (simp add: mod_eq_0_iff_dvd)
  moreover have "(4::int) dvd 100" by simp
  ultimately have "4 dvd y" by (rule dvd_trans [rotated])
  then show ?thesis by (simp add: mod_eq_0_iff_dvd)
qed

lemma mod400_mod100: "(y::int) mod 400 = 0 \<Longrightarrow> y mod 100 = 0"
proof -
  assume "y mod 400 = 0"
  then have "400 dvd y" by (simp add: mod_eq_0_iff_dvd)
  moreover have "(100::int) dvd 400" by simp
  ultimately have "100 dvd y" by (rule dvd_trans [rotated])
  then show ?thesis by (simp add: mod_eq_0_iff_dvd)
qed

lemma DayFromYear_step: "DayFromYear (y + 1) = DayFromYear y + (if isLeap y then 366 else 365)"
proof -
  have "DayFromYear (y + 1) =
      365 * (y - 1969) + (y - 1968) div 4 - (y - 1900) div 100 + (y - 1600) div 400"
    by (simp add: DayFromYear_def)
  also have "\<dots> = DayFromYear y + 365 + (if y mod 4 = 0 then 1 else 0)
      - (if y mod 100 = 0 then 1 else 0) + (if y mod 400 = 0 then 1 else 0)"
    unfolding step4 step100 step400 DayFromYear_def by simp
  finally show ?thesis
    using mod100_mod4 [of y] mod400_mod100 [of y] by (auto simp: isLeap_def)
qed

text \<open>
  YearFromTime: the largest year \<open>y\<close> with \<open>DayFromYear y \<le> Day t\<close>, found by counting up
  from a year that is not after it.
\<close>

function yearFrom :: "int \<Rightarrow> int \<Rightarrow> int" where
  "yearFrom y d = (if DayFromYear (y + 1) \<le> d then yearFrom (y + 1) d else y)"
  by pat_completeness auto
termination
  by (relation "measure (\<lambda>(y, d). nat (d - DayFromYear y))") (auto simp: DayFromYear_step split: if_splits)

declare yearFrom.simps [simp del]

definition YearFromDay :: "int \<Rightarrow> int" where
  "YearFromDay d = yearFrom (1970 + (if 0 \<le> d then d div 366 else d div 365)) d"

definition YearFromTime :: "int \<Rightarrow> int" where
  "YearFromTime t = YearFromDay (Day t)"

definition DayWithinYear :: "int \<Rightarrow> int" where
  "DayWithinYear t = Day t - DayFromYear (YearFromTime t)"

text \<open>The number of days of the year before month \<open>m\<close> (0 is January).\<close>

definition monthStart :: "bool \<Rightarrow> int \<Rightarrow> int" where
  "monthStart leap m =
     (let x = (if leap then 1 else 0) in
      if m = 0 then 0 else if m = 1 then 31 else if m = 2 then 59 + x
      else if m = 3 then 90 + x else if m = 4 then 120 + x else if m = 5 then 151 + x
      else if m = 6 then 181 + x else if m = 7 then 212 + x else if m = 8 then 243 + x
      else if m = 9 then 273 + x else if m = 10 then 304 + x else 334 + x)"

definition monthOfDay :: "bool \<Rightarrow> int \<Rightarrow> int" where
  "monthOfDay leap d =
     (let x = (if leap then 1 else 0) in
      if d < 31 then 0 else if d < 59 + x then 1 else if d < 90 + x then 2
      else if d < 120 + x then 3 else if d < 151 + x then 4 else if d < 181 + x then 5
      else if d < 212 + x then 6 else if d < 243 + x then 7 else if d < 273 + x then 8
      else if d < 304 + x then 9 else if d < 334 + x then 10 else 11)"

definition MonthFromTime :: "int \<Rightarrow> int" where
  "MonthFromTime t = monthOfDay (isLeap (YearFromTime t)) (DayWithinYear t)"

definition DateFromTime :: "int \<Rightarrow> int" where
  "DateFromTime t =
     DayWithinYear t - monthStart (isLeap (YearFromTime t)) (MonthFromTime t) + 1"

definition WeekDay :: "int \<Rightarrow> int" where
  "WeekDay t = (Day t + 4) mod 7"

definition HourFromTime :: "int \<Rightarrow> int" where
  "HourFromTime t = (t div 3600000) mod 24"

definition MakeTime :: "int \<Rightarrow> int \<Rightarrow> int \<Rightarrow> int \<Rightarrow> int" where
  "MakeTime h m s ms = h * 3600000 + m * 60000 + s * 1000 + ms"

definition MakeDay :: "int \<Rightarrow> int \<Rightarrow> int \<Rightarrow> int" where
  "MakeDay y m dt =
     (let ym = y + m div 12; mn = m mod 12
      in DayFromYear ym + monthStart (isLeap ym) mn + dt - 1)"

definition MakeDate :: "int \<Rightarrow> int \<Rightarrow> int" where
  "MakeDate day time = day * msPerDay + time"

text \<open>
  Local time. The time zone of the server is a parameter: its standard offset from UTC in
  milliseconds, and its periods of daylight saving time, each given by the two UTC time
  values between which (the first included, the second not) the offset is one hour more.
  \<open>offsetAt\<close> is the offset in force at a UTC time value; \<open>offsetOfLocal\<close> is the offset
  with which a local time value is read: a local time that the clocks skip, or show twice,
  is read with the offset in force before the change. Changes of the standard offset of a
  zone over the years are not modelled.
\<close>

record zone =
  stdOffset :: int
  dstPeriods :: "(int \<times> int) list"

definition msPerHour :: int where
  "msPerHour = 3600000"

definition inDst :: "zone \<Rightarrow> int \<Rightarrow> bool" where
  "inDst z t = list_ex (\<lambda>p. fst p \<le> t \<and> t < snd p) (dstPeriods z)"

definition offsetAt :: "zone \<Rightarrow> int \<Rightarrow> int" where
  "offsetAt z t = stdOffset z + (if inDst z t then msPerHour else 0)"

definition inDstLocal :: "zone \<Rightarrow> int \<Rightarrow> bool" where
  "inDstLocal z u =
     list_ex (\<lambda>p. fst p + stdOffset z + msPerHour \<le> u \<and> u < snd p + stdOffset z + msPerHour)
       (dstPeriods z)"

definition offsetOfLocal :: "zone \<Rightarrow> int \<Rightarrow> int" where
  "offsetOfLocal z u = stdOffset z + (if inDstLocal z u then msPerHour else 0)"

definition LocalTime :: "zone \<Rightarrow> int \<Rightarrow> int" where
  "LocalTime z t = t + offsetAt z t"

definition UTC :: "zone \<Rightarrow> int \<Rightarrow> int" where
  "UTC z u = u - offsetOfLocal z u"

text \<open>
  The methods of \<^verbatim>\<open>Date\<close> that the analytics service calls; all of them work in
  local time. \<^verbatim>\<open>new Date(y, m, d)\<close> reads a year from 0 to 99 as 1900 + y.
\<close>

definition getFullYear :: "zone \<Rightarrow> int \<Rightarrow> int" where
  "getFullYear z t = YearFromTime (LocalTime z t)"

definition getMonth :: "zone \<Rightarrow> int \<Rightarrow> int" where
  "getMonth z t = MonthFromTime (LocalTime z t)"

definition getDate :: "zone \<Rightarrow> int \<Rightarrow> int" where
  "getDate z t = DateFromTime (LocalTime z t)"

definition getDay :: "zone \<Rightarrow> int \<Rightarrow> int" where
  "getDay z t = WeekDay (LocalTime z t)"

definition setHours :: "zone \<Rightarrow> int \<Rightarrow> int \<Rightarrow> int \<Rightarrow> int \<Rightarrow> int \<Rightarrow> int" where
  "setHours z t h m s ms = UTC z (MakeDate (Day (LocalTime z t)) (MakeTime h m s ms))"

definition setDate :: "zone \<Rightarrow> int \<Rightarrow> int \<Rightarrow> int" where
  "setDate z t dt =
     UTC z (MakeDate (MakeDay (getFullYear z t) (getMonth z t) dt) (TimeWithinDay (LocalTime z t)))"

definition setMonth :: "zone \<Rightarrow> int \<Rightarrow> int \<Rightarrow> int" where
  "setMonth z t m =
     UTC z (MakeDate (MakeDay (getFullYear z t) m (getDate z t)) (TimeWithinDay (LocalTime z t)))"

definition newDate :: "zone \<Rightarrow> int \<Rightarrow> int \<Rightarrow> int \<Rightarrow> int" where
  "newDate z y m d =
     UTC z (MakeDate (MakeDay (if 0 \<le> y \<and> y \<le> 99 then 1900 + y else y) m d) 0)"

text \<open>
  Three zones: UTC; India, five and a half hours ahead of UTC all year; and New York in
  2024, five hours behind UTC, with daylight saving time from 10 March 2024, 07:00 UTC, to
  3 November 2024, 06:00 UTC.
\<close>

definition utcZone :: zone where
  "utcZone = \<lparr>stdOffset = 0, dstPeriods = []\<rparr>"

definition indiaZone :: zone where
  "indiaZone = \<lparr>stdOffset = 19800000, dstPeriods = []\<rparr>"

definition newYorkZone :: zone where
  "newYorkZone = \<lparr>stdOffset = - 18000000, dstPeriods = [(1710054000000, 1730613600000)]\<rparr>"

section \<open>Properties of the Date operations\<close>

lemma monthOfDay_range: "0 \<le> monthOfDay leap d \<and> monthOfDay leap d \<le> 11"
  by (simp add: monthOfDay_def Let_def)

lemma MonthFromTime_range: "0 \<le> MonthFromTime t \<and> MonthFromTime t \<le> 11"
  by (simp add: MonthFromTime_def monthOfDay_range)

lemma MakeDay_shift:
  "MakeDay (YearFromTime t) (MonthFromTime t) (DateFromTime t + k) = Day t + k"
proof -
  from MonthFromTime_range [of t]
  have "MonthFromTime t div 12 = 0" "MonthFromTime t mod 12 = MonthFromTime t" by auto
  then show ?thesis
    by (simp add: MakeDay_def Let_def DateFromTime_def DayWithinYear_def)
qed

lemma Day_decompose: "Day t * msPerDay + TimeWithinDay t = t"
  by (simp add: Day_def TimeWithinDay_def)

text \<open>The offset of a zone is its standard offset, or one hour more.\<close>

lemma offsetAt_bounds: "stdOffset z \<le> offsetAt z t \<and> offsetAt z t \<le> stdOffset z + msPerHour"
  by (simp add: offsetAt_def msPerHour_def)

lemma offsetOfLocal_bounds:
  "stdOffset z \<le> offsetOfLocal z u \<and> offsetOfLocal z u \<le> stdOffset z + msPerHour"
  by (simp add: offsetOfLocal_def msPerHour_def)

lemma UTC_LocalTime_ge: "t + k - msPerHour \<le> UTC z (LocalTime z t + k)"
  using offsetAt_bounds [of z t] offsetOfLocal_bounds [of z "LocalTime z t + k"]
  by (simp add: UTC_def LocalTime_def)

text \<open>In a zone without daylight saving time, local time is UTC moved by a constant.\<close>

lemma fixed_offsetAt: "dstPeriods z = [] \<Longrightarrow> offsetAt z t = stdOffset z"
  by (simp add: offsetAt_def inDst_def)

lemma fixed_offsetOfLocal: "dstPeriods z = [] \<Longrightarrow> offsetOfLocal z u = stdOffset z"
  by (simp add: offsetOfLocal_def inDstLocal_def)

lemma fixed_LocalTime: "dstPeriods z = [] \<Longrightarrow> LocalTime z t = t + stdOffset z"
  by (simp add: LocalTime_def fixed_offsetAt)

lemma fixed_UTC: "dstPeriods z = [] \<Longrightarrow> UTC z u = u - stdOffset z"
  by (simp add: UTC_def fixed_offsetOfLocal)

text \<open>
  \<^verbatim>\<open>d.setDate(d.getDate() + k)\<close> moves the local time by \<open>k\<close> days; without daylight
  saving time, this moves the time value by \<open>k\<close> times 24 hours.
\<close>

lemma setDate_local: "setDate z t (getDate z t + k) = UTC z (LocalTime z t + k * msPerDay)"
proof -
  let ?l = "LocalTime z t"
  have "MakeDate (MakeDay (YearFromTime ?l) (MonthFromTime ?l) (DateFromTime ?l + k)) (TimeWithinDay ?l)
          = (Day ?l + k) * msPerDay + TimeWithinDay ?l"
    by (simp add: MakeDay_shift MakeDate_def)
  also have "\<dots> = (Day ?l * msPerDay + TimeWithinDay ?l) + k * msPerDay"
    by (simp add: algebra_simps)
  finally show ?thesis
    by (simp add: setDate_def getFullYear_def getMonth_def getDate_def Day_decompose)
qed

lemma setDate_shift:
  assumes "dstPeriods z = []"
  shows "setDate z t (getDate z t + k) = t + k * msPerDay"
  by (simp add: setDate_local fixed_UTC [OF assms] fixed_LocalTime [OF assms])

section \<open>Numbers and strings of the analytics service\<close>

text \<open>
  The numbers of JavaScript and of the database are IEEE 754 doubles. A double is modelled
  by the rational number that it stands for, and an operation by the exact operation
  followed by \<open>toDouble\<close>, the rounding of a rational to the nearest number with a
  significand of 53 bits, halves going to the even significand. Infinities, \<^verbatim>\<open>NaN\<close>,
  the sign of zero, and the limits of the exponent (overflow, subnormal numbers) are not
  modelled.
\<close>

text \<open>The powers of two: \<open>twoPower k\<close> is \<open>2\<^sup>k\<close> for \<open>k\<close> from 0.\<close>

function twoPower :: "int \<Rightarrow> int" where
  "twoPower k = (if k \<le> 0 then 1 else 2 * twoPower (k - 1))"
  by pat_completeness auto
termination
  by (relation "measure nat") auto

declare twoPower.simps [simp del]

definition pow2 :: "int \<Rightarrow> rat" where
  "pow2 k = (if 0 \<le> k then of_int (twoPower k) else 1 / of_int (twoPower (- k)))"

text \<open>The number of binary digits of a positive integer.\<close>

function bitLength :: "int \<Rightarrow> int" where
  "bitLength n = (if n \<le> 0 then 0 else 1 + bitLength (n div 2))"
  by pat_completeness auto
termination
  by (relation "measure nat") (auto simp: int_div_less_self)

declare bitLength.simps [simp del]

text \<open>
  The exponent of a positive rational \<open>a\<close>: the integer \<open>k\<close> with
  \<open>2\<^sup>k \<le> a < 2\<^sup>k\<^sup>+\<^sup>1\<close>, from the lengths of its numerator and denominator.
\<close>

definition floorLog2 :: "rat \<Rightarrow> int" where
  "floorLog2 a =
     (if pow2 (bitLength (fst (quotient_of a)) - bitLength (snd (quotient_of a))) \<le> a
      then bitLength (fst (quotient_of a)) - bitLength (snd (quotient_of a))
      else bitLength (fst (quotient_of a)) - bitLength (snd (quotient_of a)) - 1)"

definition roundHalfEven :: "rat \<Rightarrow> int" where
  "roundHalfEven y =
     (if y - of_int \<lfloor>y\<rfloor> < 1 / 2 then \<lfloor>y\<rfloor>
      else if 1 / 2 < y - of_int \<lfloor>y\<rfloor> then \<lfloor>y\<rfloor> + 1
      else if even \<lfloor>y\<rfloor> then \<lfloor>y\<rfloor> else \<lfloor>y\<rfloor> + 1)"

definition toDouble :: "rat \<Rightarrow> rat" where
  "toDouble x =
     (if x = 0 then 0
      else of_int (roundHalfEven (x * pow2 (52 - floorLog2 \<bar>x\<bar>))) * pow2 (floorLog2 \<bar>x\<bar> - 52))"

definition fadd :: "rat \<Rightarrow> rat \<Rightarrow> rat" where
  "fadd x y = toDouble (x + y)"

definition fsub :: "rat \<Rightarrow> rat \<Rightarrow> rat" where
  "fsub x y = toDouble (x - y)"

definition fmul :: "rat \<Rightarrow> rat \<Rightarrow> rat" where
  "fmul x y = toDouble (x * y)"

definition fdiv :: "rat \<Rightarrow> rat \<Rightarrow> rat" where
  "fdiv x y = toDouble (x / y)"

text \<open>
  \<^verbatim>\<open>Math.round\<close> (the nearest integer, halves going up; it does not round its
  argument first), \<^verbatim>\<open>Math.ceil\<close> of a quotient of integers, the rounding to two
  decimals \<^verbatim>\<open>Math.round(x * 100) / 100\<close> with its double multiplication and division,
  and the \<^verbatim>\<open>$round\<close> of the aggregation pipeline to two places (halves go to the even
  neighbour), whose result is a double again. \<open>ceilDiv\<close> is used for the number of days
  in a difference of time values, \<^verbatim>\<open>Math.ceil(ms / 86400000)\<close>: below \<open>2\<^sup>5\<^sup>3\<close>
  milliseconds the double quotient is nearer to the exact one than the exact one is to a
  whole number it differs from, so that both have the same ceiling.
\<close>

definition mathRound :: "rat \<Rightarrow> int" where
  "mathRound x = \<lfloor>x + 1 / 2\<rfloor>"

definition ceilDiv :: "int \<Rightarrow> int \<Rightarrow> int" where
  "ceilDiv a b = - ((- a) div b)"

definition round2 :: "rat \<Rightarrow> rat" where
  "round2 x = fdiv (of_int (mathRound (fmul x 100))) 100"

definition mongoRound2 :: "rat \<Rightarrow> rat" where
  "mongoRound2 x = toDouble (of_int (roundHalfEven (x * 100)) / 100)"

text \<open>\<^verbatim>\<open>Number.prototype.toString\<close> on integers, and \<^verbatim>\<open>padStart(n, '0')\<close>.\<close>

definition digitChar :: "int \<Rightarrow> char" where
  "digitChar d = ''0123456789'' ! nat d"

function showDigits :: "int \<Rightarrow> string" where
  "showDigits n = (if n < 10 then [digitChar n] else showDigits (n div 10) @ [digitChar (n mod 10)])"
  by pat_completeness auto
termination
  by (relation "measure nat") (auto simp: int_div_less_self)

declare showDigits.simps [simp del]

definition showInt :: "int \<Rightarrow> string" where
  "showInt i = (if i < 0 then CHR ''-'' # showDigits (- i) else showDigits i)"

definition padStart :: "nat \<Rightarrow> string \<Rightarrow> string" where
  "padStart n s = replicate (n - length s) CHR ''0'' @ s"

text \<open>
  The date part of \<^verbatim>\<open>toISOString\<close>, which is in UTC, and the labels that
  \<^verbatim>\<open>toLocaleDateString\<close> gives, in local time, in the locale en-US for the two option
  sets of the service (years before 1 are printed as plain numbers: eras are not modelled).
\<close>

definition isoYear :: "int \<Rightarrow> string" where
  "isoYear y =
     (if 0 \<le> y \<and> y \<le> 9999 then padStart 4 (showDigits y)
      else (if y < 0 then ''-'' else ''+'') @ padStart 6 (showDigits \<bar>y\<bar>))"

definition isoDate :: "int \<Rightarrow> string" where
  "isoDate t =
     isoYear (YearFromTime t) @ ''-'' @ padStart 2 (showDigits (MonthFromTime t + 1))
       @ ''-'' @ padStart 2 (showDigits (DateFromTime t))"

definition weekdayShort :: "int \<Rightarrow> string" where
  "weekdayShort d = [''Sun'', ''Mon'', ''Tue'', ''Wed'', ''Thu'', ''Fri'', ''Sat''] ! nat d"

definition monthShort :: "int \<Rightarrow> string" where
  "monthShort m = [''Jan'', ''Feb'', ''Mar'', ''Apr'', ''May'', ''Jun'', ''Jul'', ''Aug'',
                   ''Sep'', ''Oct'', ''Nov'', ''Dec''] ! nat m"

definition dayLabel :: "zone \<Rightarrow> int \<Rightarrow> string" where
  "dayLabel z t = weekdayShort (getDay z t) @ '', '' @ monthShort (getMonth z t) @ '' ''
                   @ showInt (getDate z t)"

definition monthLabel :: "zone \<Rightarrow> int \<Rightarrow> string" where
  "monthLabel z t = monthShort (getMonth z t) @ '' '' @ showInt (getFullYear z t)"

section \<open>Aggregation over the billing history\<close>

text \<open>
  The first stages of every pipeline: \<^verbatim>\<open>$match\<close> on the store e-mail, \<^verbatim>\<open>$unwind\<close> of
  the billing history, \<^verbatim>\<open>$match\<close> on \<^verbatim>\<open>createdAt\<close> between the two dates (inclusive).
\<close>

definition billsOf :: "stores \<Rightarrow> string \<Rightarrow> billing list" where
  "billsOf db email = (case db email of None \<Rightarrow> [] | Some st \<Rightarrow> billingHistory st)"

definition inWindow :: "int \<Rightarrow> int \<Rightarrow> billing \<Rightarrow> bool" where
  "inWindow startDate endDate b = (startDate \<le> createdAt b \<and> createdAt b \<le> endDate)"

definition matchWindow :: "stores \<Rightarrow> string \<Rightarrow> int \<Rightarrow> int \<Rightarrow> billing list" where
  "matchWindow db email startDate endDate = filter (inWindow startDate endDate) (billsOf db email)"

text \<open>
  The \<^verbatim>\<open>$group\<close> stage with \<^verbatim>\<open>_id: null\<close>: one accumulator, fed one bill at a time,
  in the order of the billing history; \<^verbatim>\<open>$sum\<close> is taken to add each amount to the
  sum so far by one double addition, and \<^verbatim>\<open>$reduce\<close> adds up the quantities of the
  lines of a bill. No input document gives no output document.
\<close>

record periodGroup =
  g_totalSales :: rat
  g_transactionCount :: nat
  g_itemsSold :: int

definition reduceQuantity :: "product list \<Rightarrow> int" where
  "reduceQuantity ps = fold (\<lambda>this v. v + pquantity this) ps 0"

definition periodStep :: "billing \<Rightarrow> periodGroup \<Rightarrow> periodGroup" where
  "periodStep b g = \<lparr>g_totalSales = fadd (g_totalSales g) (totalAmount b),
                     g_transactionCount = g_transactionCount g + 1,
                     g_itemsSold = g_itemsSold g + reduceQuantity (productList b)\<rparr>"

definition periodGroupOf :: "billing list \<Rightarrow> periodGroup option" where
  "periodGroupOf bills =
     (if bills = [] then None
      else Some (fold periodStep bills \<lparr>g_totalSales = 0, g_transactionCount = 0, g_itemsSold = 0\<rparr>))"

record salesSummary =
  totalSales :: rat
  transactionCount :: nat
  itemsSold :: int
  averageTransaction :: rat

definition getSalesForPeriodAggregated :: "stores \<Rightarrow> string \<Rightarrow> int \<Rightarrow> int \<Rightarrow> salesSummary" where
  "getSalesForPeriodAggregated db email startDate endDate =
     (case periodGroupOf (matchWindow db email startDate endDate) of
        None \<Rightarrow> \<lparr>totalSales = 0, transactionCount = 0, itemsSold = 0, averageTransaction = 0\<rparr>
      | Some d \<Rightarrow>
          \<lparr>totalSales = round2 (g_totalSales d),
           transactionCount = g_transactionCount d,
           itemsSold = g_itemsSold d,
           averageTransaction =
             (if g_transactionCount d > 0
              then round2 (fdiv (g_totalSales d) (of_nat (g_transactionCount d))) else 0)\<rparr>)"

text \<open>
  The \<^verbatim>\<open>$group\<close> stage with a key: one group per distinct key, with the sum of the
  amounts and the number of bills; \<^verbatim>\<open>$sort\<close> then orders the groups by key.
\<close>

fun groupAdd :: "'k \<Rightarrow> rat \<Rightarrow> ('k \<times> rat \<times> nat) list \<Rightarrow> ('k \<times> rat \<times> nat) list" where
  "groupAdd k a [] = [(k, fadd 0 a, 1)]"
| "groupAdd k a ((k', s, n) # gs) =
     (if k = k' then (k', fadd s a, n + 1) # gs else (k', s, n) # groupAdd k a gs)"

fun groupFold :: "(billing \<Rightarrow> 'k) \<Rightarrow> billing list \<Rightarrow> ('k \<times> rat \<times> nat) list \<Rightarrow> ('k \<times> rat \<times> nat) list" where
  "groupFold key [] gs = gs"
| "groupFold key (b # bs) gs = groupFold key bs (groupAdd (key b) (totalAmount b) gs)"

definition groupSales :: "(billing \<Rightarrow> 'k::linorder) \<Rightarrow> billing list \<Rightarrow> ('k \<times> rat \<times> nat) list" where
  "groupSales key bills = sort_key fst (groupFold key bills [])"

text \<open>
  The keys of the three charts: \<^verbatim>\<open>$hour\<close>; \<^verbatim>\<open>$year\<close>, \<^verbatim>\<open>$month\<close> and
  \<^verbatim>\<open>$dayOfMonth\<close>; \<^verbatim>\<open>$year\<close> and \<^verbatim>\<open>$month\<close> of \<^verbatim>\<open>createdAt\<close> (months from 1).
  The pipelines name no time zone, so the database takes these parts in UTC.
\<close>

definition hourKey :: "billing \<Rightarrow> int" where
  "hourKey b = HourFromTime (createdAt b)"

definition dayKey :: "billing \<Rightarrow> int \<times> int \<times> int" where
  "dayKey b = (YearFromTime (createdAt b), MonthFromTime (createdAt b) + 1, DateFromTime (createdAt b))"

definition monthKey :: "billing \<Rightarrow> int \<times> int" where
  "monthKey b = (YearFromTime (createdAt b), MonthFromTime (createdAt b) + 1)"

text \<open>The fields that a chart bucket takes from the group found for it, if any.\<close>

definition foundSales :: "('k \<times> rat \<times> nat) option \<Rightarrow> rat" where
  "foundSales found = (case found of None \<Rightarrow> 0 | Some (k, s, n) \<Rightarrow> round2 s)"

definition foundTransactions :: "('k \<times> rat \<times> nat) option \<Rightarrow> nat" where
  "foundTransactions found = (case found of None \<Rightarrow> 0 | Some (k, s, n) \<Rightarrow> n)"

record hourBucket =
  h_hour :: string
  h_sales :: rat
  h_transactions :: nat

definition getHourlyBreakdownAggregated :: "zone \<Rightarrow> stores \<Rightarrow> string \<Rightarrow> int \<Rightarrow> hourBucket list" where
  "getHourlyBreakdownAggregated z db email date =
     (let dayStart = setHours z date 0 0 0 0;
          dayEnd = setHours z date 23 59 59 999;
          result = groupSales hourKey (matchWindow db email dayStart dayEnd)
      in map (\<lambda>h. let found = find (\<lambda>r. fst r = int h) result
                    in \<lparr>h_hour = padStart 2 (showDigits (int h)) @ '':00'',
                        h_sales = foundSales found,
                        h_transactions = foundTransactions found\<rparr>) [0..<24])"

record dayBucket =
  d_date :: string
  d_label :: string
  d_sales :: rat
  d_transactions :: nat

text \<open>
  The loop of \<^verbatim>\<open>getDailyBreakdownAggregated\<close>: \<open>current\<close> starts at the start date and
  is moved by \<^verbatim>\<open>current.setDate(current.getDate() + 1)\<close> while it is not after the end
  date.
\<close>

lemma setDate_next: "t < setDate z t (getDate z t + 1)"
  using UTC_LocalTime_ge [of t msPerDay z] setDate_local [of z t 1]
  by (simp add: msPerDay_def msPerHour_def)

definition dayBucketOf ::
  "zone \<Rightarrow> int \<Rightarrow> ((int \<times> int \<times> int) \<times> rat \<times> nat) option \<Rightarrow> dayBucket" where
  "dayBucketOf z current found =
     \<lparr>d_date = isoDate current, d_label = dayLabel z current,
      d_sales = foundSales found, d_transactions = foundTransactions found\<rparr>"

function dailyLoop ::
  "zone \<Rightarrow> ((int \<times> int \<times> int) \<times> rat \<times> nat) list \<Rightarrow> int \<Rightarrow> int \<Rightarrow> dayBucket list" where
  "dailyLoop z result current endDate =
     (if current \<le> endDate
      then dayBucketOf z current
             (find (\<lambda>r. fst r = (getFullYear z current, getMonth z current + 1,
                                     getDate z current)) result)
           # dailyLoop z result (setDate z current (getDate z current + 1)) endDate
      else [])"
  by pat_completeness auto
termination
proof (relation "measure (\<lambda>(z, result, current, endDate). nat (endDate - current + 1))")
  show "wf (measure (\<lambda>(z, result, current, endDate). nat (endDate - current + 1)))" by simp
next
  fix z :: zone and result :: "((int \<times> int \<times> int) \<times> rat \<times> nat) list"
    and current endDate :: int
  assume "current \<le> endDate"
  with setDate_next [of current z]
  show "((z, result, setDate z current (getDate z current + 1), endDate),
         (z, result, current, endDate))
          \<in> measure (\<lambda>(z, result, current, endDate). nat (endDate - current + 1))"
    by simp
qed

declare dailyLoop.simps [simp del]

definition getDailyBreakdownAggregated ::
  "zone \<Rightarrow> stores \<Rightarrow> string \<Rightarrow> int \<Rightarrow> int \<Rightarrow> dayBucket list" where
  "getDailyBreakdownAggregated z db email startDate endDate =
     (let result = groupSales dayKey (matchWindow db email startDate endDate)
      in dailyLoop z result startDate endDate)"

text \<open>
  The loop of \<^verbatim>\<open>getMonthlyBreakdownAggregated\<close>: \<open>current\<close> starts at the first day of
  the month of the start date and is moved by \<^verbatim>\<open>current.setMonth(current.getMonth() + 1)\<close>
  while it is not after the first day of the month of the end date.
\<close>

lemma month_cases:
  "0 \<le> m \<Longrightarrow> m \<le> 11 \<Longrightarrow>
     m = 0 \<or> m = 1 \<or> m = 2 \<or> m = 3 \<or> m = 4 \<or> m = 5 \<or> m = 6 \<or> m = 7 \<or> m = 8
       \<or> m = 9 \<or> m = 10 \<or> m = (11::int)"
  by arith

lemma monthStart_next:
  assumes "0 \<le> m" and "m \<le> 10"
  shows "monthStart leap m < monthStart leap (m + 1)"
proof -
  from assms have "m \<le> 11" by simp
  from month_cases [OF assms(1) this] assms(2) show ?thesis
    by (elim disjE) (simp_all add: monthStart_def)
qed

lemma monthStart_le_334:
  assumes "0 \<le> m" and "m \<le> 11"
  shows "monthStart leap m \<le> 334 + (if leap then 1 else 0)"
  using month_cases [OF assms] by (elim disjE) (simp_all add: monthStart_def)

lemma MakeDay_next_month:
  "Day t < MakeDay (YearFromTime t) (MonthFromTime t + 1) (DateFromTime t)"
proof -
  let ?y = "YearFromTime t" and ?m = "MonthFromTime t"
  have d: "Day t = DayFromYear ?y + monthStart (isLeap ?y) ?m + DateFromTime t - 1"
    by (simp add: DateFromTime_def DayWithinYear_def)
  from MonthFromTime_range [of t] have r: "0 \<le> ?m" "?m \<le> 11" by auto
  show ?thesis
  proof (cases "?m \<le> 10")
    case True
    with r have "(?m + 1) div 12 = 0" "(?m + 1) mod 12 = ?m + 1" by auto
    with monthStart_next [OF r(1) True, of "isLeap ?y"] d show ?thesis
      by (simp add: MakeDay_def Let_def)
  next
    case False
    with r have m: "?m = 11" by simp
    from monthStart_le_334 [OF r, of "isLeap ?y"] d DayFromYear_step [of ?y]
    show ?thesis by (simp add: MakeDay_def Let_def m monthStart_def split: if_splits)
  qed
qed

lemma setMonth_next: "t < setMonth z t (getMonth z t + 1)"
proof -
  let ?l = "LocalTime z t"
  let ?n = "MakeDate (MakeDay (YearFromTime ?l) (MonthFromTime ?l + 1) (DateFromTime ?l))
              (TimeWithinDay ?l)"
  from MakeDay_next_month [of ?l]
  have "Day ?l + 1 \<le> MakeDay (YearFromTime ?l) (MonthFromTime ?l + 1) (DateFromTime ?l)" by simp
  then have "(Day ?l + 1) * msPerDay \<le>
      MakeDay (YearFromTime ?l) (MonthFromTime ?l + 1) (DateFromTime ?l) * msPerDay"
    by (simp add: msPerDay_def)
  then have "?l + msPerDay \<le> ?n"
    using Day_decompose [of ?l] by (simp add: MakeDate_def algebra_simps)
  moreover have "setMonth z t (getMonth z t + 1) = ?n - offsetOfLocal z ?n"
    by (simp add: setMonth_def getFullYear_def getMonth_def getDate_def UTC_def)
  ultimately show ?thesis
    using offsetAt_bounds [of z t] offsetOfLocal_bounds [of z ?n]
    by (simp add: LocalTime_def msPerDay_def msPerHour_def)
qed

record monthBucket =
  m_month :: string
  m_sales :: rat
  m_transactions :: nat

definition monthBucketOf ::
  "zone \<Rightarrow> int \<Rightarrow> ((int \<times> int) \<times> rat \<times> nat) option \<Rightarrow> monthBucket" where
  "monthBucketOf z current found =
     \<lparr>m_month = monthLabel z current,
      m_sales = foundSales found, m_transactions = foundTransactions found\<rparr>"

function monthlyLoop ::
  "zone \<Rightarrow> ((int \<times> int) \<times> rat \<times> nat) list \<Rightarrow> int \<Rightarrow> int \<Rightarrow> monthBucket list" where
  "monthlyLoop z result current endMonth =
     (if current \<le> endMonth
      then monthBucketOf z current
             (find (\<lambda>r. fst r = (getFullYear z current, getMonth z current + 1)) result)
           # monthlyLoop z result (setMonth z current (getMonth z current + 1)) endMonth
      else [])"
  by pat_completeness auto
termination
proof (relation "measure (\<lambda>(z, result, current, endMonth). nat (endMonth - current + 1))")
  show "wf (measure (\<lambda>(z, result, current, endMonth). nat (endMonth - current + 1)))" by simp
next
  fix z :: zone and result :: "((int \<times> int) \<times> rat \<times> nat) list" and current endMonth :: int
  assume "current \<le> endMonth"
  with setMonth_next [of current z]
  show "((z, result, setMonth z current (getMonth z current + 1), endMonth),
         (z, result, current, endMonth))
          \<in> measure (\<lambda>(z, result, current, endMonth). nat (endMonth - current + 1))"
    by simp
qed

declare monthlyLoop.simps [simp del]

definition getMonthlyBreakdownAggregated ::
  "zone \<Rightarrow> stores \<Rightarrow> string \<Rightarrow> int \<Rightarrow> int \<Rightarrow> monthBucket list" where
  "getMonthlyBreakdownAggregated z db email startDate endDate =
     (let result = groupSales monthKey (matchWindow db email startDate endDate);
          current = newDate z (getFullYear z startDate) (getMonth z startDate) 1;
          endMonth = newDate z (getFullYear z endDate) (getMonth z endDate) 1
      in monthlyLoop z result current endMonth)"

section \<open>The period of a sales-analytics request\<close>

datatype chartKind = hourly | daily | monthly

record window =
  wStart :: int
  wEnd :: int
  wComparisonStart :: int
  wComparisonEnd :: int
  wChartType :: chartKind

text \<open>
  The first part of \<^verbatim>\<open>getSalesAnalytics\<close>: from the period name, the custom dates and
  \<open>now\<close> (the value of \<^verbatim>\<open>new Date()\<close>) to the two windows and the chart type. A custom
  date is \<open>None\<close> when it is absent or empty, and otherwise the time value that
  \<^verbatim>\<open>new Date(customStart)\<close> parses it to; text that does not parse is not modelled.
\<close>

definition resolvePeriod :: "zone \<Rightarrow> string \<Rightarrow> int option \<Rightarrow> int option \<Rightarrow> int \<Rightarrow> error + window" where
  "resolvePeriod z period customStart customEnd now =
     (if period = ''custom'' \<and> customStart \<noteq> None \<and> customEnd \<noteq> None then
        (let startDate = the customStart;
             endDate = the customEnd;
             daysDiff = ceilDiv (endDate - startDate) (1000 * 60 * 60 * 24);
             chartType = (if daysDiff \<le> 1 then hourly else if daysDiff \<le> 31 then daily else monthly)
         in Inr \<lparr>wStart = startDate, wEnd = endDate,
                  wComparisonStart = setDate z startDate (getDate z startDate - daysDiff),
                  wComparisonEnd = setDate z endDate (getDate z endDate - daysDiff),
                  wChartType = chartType\<rparr>)
      else if period = ''today'' then
        (let startDate = setHours z now 0 0 0 0;
             endDate = setHours z now 23 59 59 999
         in Inr \<lparr>wStart = startDate, wEnd = endDate,
                  wComparisonStart = setDate z startDate (getDate z startDate - 1),
                  wComparisonEnd = setDate z endDate (getDate z endDate - 1),
                  wChartType = hourly\<rparr>)
      else if period = ''yesterday'' then
        (let startDate = setHours z (setDate z now (getDate z now - 1)) 0 0 0 0;
             endDate = setHours z startDate 23 59 59 999
         in Inr \<lparr>wStart = startDate, wEnd = endDate,
                  wComparisonStart = setDate z startDate (getDate z startDate - 1),
                  wComparisonEnd = setDate z endDate (getDate z endDate - 1),
                  wChartType = hourly\<rparr>)
      else if period = ''thisWeek'' then
        (let startDate = setHours z (setDate z now (getDate z now - getDay z now)) 0 0 0 0;
             endDate = setHours z now 23 59 59 999
         in Inr \<lparr>wStart = startDate, wEnd = endDate,
                  wComparisonStart = setDate z startDate (getDate z startDate - 7),
                  wComparisonEnd = setDate z endDate (getDate z endDate - 7),
                  wChartType = daily\<rparr>)
      else if period = ''thisMonth'' then
        Inr \<lparr>wStart = newDate z (getFullYear z now) (getMonth z now) 1,
              wEnd = setHours z now 23 59 59 999,
              wComparisonStart = newDate z (getFullYear z now) (getMonth z now - 1) 1,
              wComparisonEnd = setHours z (newDate z (getFullYear z now) (getMonth z now) 0) 23 59 59 999,
              wChartType = daily\<rparr>
      else if period = ''thisYear'' then
        Inr \<lparr>wStart = newDate z (getFullYear z now) 0 1,
              wEnd = setHours z now 23 59 59 999,
              wComparisonStart = newDate z (getFullYear z now - 1) 0 1,
              wComparisonEnd = setHours z (newDate z (getFullYear z now - 1) (getMonth z now)
                                          (getDate z now)) 23 59 59 999,
              wChartType = monthly\<rparr>
      else Inl INVALID_PERIOD)"

section \<open>The analytics cache and the sales-analytics operation\<close>

datatype chartData =
    HourlyChart "hourBucket list"
  | DailyChart "dayBucket list"
  | MonthlyChart "monthBucket list"

record analyticsResult =
  period_name :: string
  period_start :: int
  period_end :: int
  res_current :: salesSummary
  res_comparison :: "salesSummary option"
  growth_percentage :: int
  growth_isPositive :: bool
  res_chartType :: chartKind
  res_chartData :: chartData

record cacheEntry =
  ce_data :: analyticsResult
  ce_timestamp :: int

text \<open>
  The cache key is the string made of the store e-mail and the ISO strings of the two
  dates, with colons between them. An ISO string determines its time value, and the length
  and layout of the ISO strings (24 characters, or 27 with a sign and a year of six
  digits) determine where the last two parts of the key start, so that the string
  determines the three parts: the key is modelled as the triple.
\<close>

type_synonym cacheKey = "string \<times> int \<times> int"

type_synonym cache = "cacheKey \<rightharpoonup> cacheEntry"

definition CACHE_TTL :: int where
  "CACHE_TTL = 5 * 60 * 1000"

definition getCacheKey :: "string \<Rightarrow> int \<Rightarrow> int \<Rightarrow> cacheKey" where
  "getCacheKey email startDate endDate = (email, startDate, endDate)"

text \<open>
  \<^verbatim>\<open>getFromCache\<close> and \<^verbatim>\<open>setCache\<close>, with the module-level map passed in and
  returned, and \<open>now\<close> the value of \<^verbatim>\<open>Date.now()\<close>.
\<close>

definition getFromCache :: "cacheKey \<Rightarrow> int \<Rightarrow> cache \<Rightarrow> analyticsResult option \<times> cache" where
  "getFromCache key now c =
     (case c key of
        Some cached \<Rightarrow>
          if now - ce_timestamp cached < CACHE_TTL then (Some (ce_data cached), c)
          else (None, c(key := None))
      | None \<Rightarrow> (None, c(key := None)))"

definition setCache :: "cacheKey \<Rightarrow> analyticsResult \<Rightarrow> int \<Rightarrow> cache \<Rightarrow> cache" where
  "setCache key d now c = c(key \<mapsto> \<lparr>ce_data = d, ce_timestamp = now\<rparr>)"

text \<open>
  The state of the service besides the stores: the cache, and the number of calls of
  \<^verbatim>\<open>Store.aggregate\<close> made so far (the accesses to storage).
\<close>

record serviceState =
  analyticsCache :: cache
  aggregateCalls :: nat

text \<open>
  The result computed on a cache miss: three aggregations (the period, the comparison
  period, the chart) and the growth percentage.
\<close>

definition computeAnalytics ::
  "zone \<Rightarrow> stores \<Rightarrow> string \<Rightarrow> string \<Rightarrow> window \<Rightarrow> analyticsResult" where
  "computeAnalytics z db email period w =
     (let currentPeriod = getSalesForPeriodAggregated db email (wStart w) (wEnd w);
          comparisonPeriod = getSalesForPeriodAggregated db email (wComparisonStart w) (wComparisonEnd w);
          chart = (case wChartType w of
                     hourly \<Rightarrow> HourlyChart (getHourlyBreakdownAggregated z db email (wStart w))
                   | daily \<Rightarrow> DailyChart (getDailyBreakdownAggregated z db email (wStart w) (wEnd w))
                   | monthly \<Rightarrow> MonthlyChart (getMonthlyBreakdownAggregated z db email (wStart w) (wEnd w)));
          growthPercentage =
            (if totalSales comparisonPeriod > 0
             then mathRound (fmul (fdiv (fsub (totalSales currentPeriod) (totalSales comparisonPeriod))
                                    (totalSales comparisonPeriod)) 100)
             else 0)
      in \<lparr>period_name = period, period_start = wStart w, period_end = wEnd w,
          res_current = currentPeriod, res_comparison = Some comparisonPeriod,
          growth_percentage = growthPercentage, growth_isPositive = (growthPercentage \<ge> 0),
          res_chartType = wChartType w, res_chartData = chart\<rparr>)"

text \<open>
  \<^verbatim>\<open>getSalesAnalytics(email, period, customStart, customEnd)\<close>, on a server in the
  zone \<open>z\<close>. One value \<open>now\<close> stands for the clock during the whole call.
\<close>

definition getSalesAnalytics ::
  "zone \<Rightarrow> stores \<Rightarrow> serviceState \<Rightarrow> string \<Rightarrow> string \<Rightarrow> int option \<Rightarrow> int option \<Rightarrow> int
     \<Rightarrow> (error + analyticsResult) \<times> serviceState" where
  "getSalesAnalytics z db s email period customStart customEnd now =
     (case resolvePeriod z period customStart customEnd now of
        Inl e \<Rightarrow> (Inl e, s)
      | Inr w \<Rightarrow>
          (let cacheKey = getCacheKey email (wStart w) (wEnd w) in
           case getFromCache cacheKey now (analyticsCache s) of
             (Some cached, c) \<Rightarrow> (Inr cached, s\<lparr>analyticsCache := c\<rparr>)
           | (None, c) \<Rightarrow>
               (let result = computeAnalytics z db email period w
                in (Inr result,
                    \<lparr>analyticsCache = setCache cacheKey result now c,
                     aggregateCalls = aggregateCalls s + 3\<rparr>))))"

section \<open>Top-selling medicines\<close>

text \<open>
  The pipeline of \<^verbatim>\<open>getTopSellingMedicines\<close>: the lines of the bills created at or
  after the start date are grouped by medicine ID, in the order in which the IDs first
  occur; the group of the lines without an ID is dropped; the groups are sorted by revenue,
  largest first (groups of equal revenue keep their order); \<^verbatim>\<open>$limit\<close> keeps the first
  ones and refuses a limit that is not positive.
\<close>

record topGroup =
  tg_id :: "string option"
  tg_name :: "string option"
  tg_quantity :: int
  tg_revenue :: rat

definition lineRevenue :: "product \<Rightarrow> rat" where
  "lineRevenue p = fmul (of_int (pquantity p)) (case pmedData p of None \<Rightarrow> 0 | Some d \<Rightarrow> pricePerTab d)"

fun topAdd :: "product \<Rightarrow> topGroup list \<Rightarrow> topGroup list" where
  "topAdd p [] = [\<lparr>tg_id = pmedID p, tg_name = map_option name (pmedData p),
                   tg_quantity = pquantity p, tg_revenue = fadd 0 (lineRevenue p)\<rparr>]"
| "topAdd p (g # gs) =
     (if tg_id g = pmedID p
      then g\<lparr>tg_quantity := tg_quantity g + pquantity p,
             tg_revenue := fadd (tg_revenue g) (lineRevenue p)\<rparr> # gs
      else g # topAdd p gs)"

record topItem =
  ti_medID :: "string option"
  ti_name :: "string option"
  ti_quantity :: int
  ti_revenue :: rat

definition topPipeline :: "billing list \<Rightarrow> int \<Rightarrow> nat \<Rightarrow> topItem list" where
  "topPipeline bills startDate limit =
     (let lines = concat (map productList (filter (\<lambda>b. startDate \<le> createdAt b) bills));
          groups = fold topAdd lines [];
          withId = filter (\<lambda>g. tg_id g \<noteq> None) groups;
          sorted = sort_key (\<lambda>g. - tg_revenue g) withId
      in map (\<lambda>g. \<lparr>ti_medID = tg_id g, ti_name = tg_name g, ti_quantity = tg_quantity g,
                     ti_revenue = mongoRound2 (tg_revenue g)\<rparr>) (take limit sorted))"

definition getTopSellingMedicines ::
  "zone \<Rightarrow> stores \<Rightarrow> serviceState \<Rightarrow> string \<Rightarrow> string \<Rightarrow> int \<Rightarrow> int
     \<Rightarrow> (error + topItem list) \<times> serviceState" where
  "getTopSellingMedicines z db s email period limit now =
     (let startDate =
            (if period = ''today'' then setHours z now 0 0 0 0
             else if period = ''thisWeek''
               then setHours z (setDate z now (getDate z now - getDay z now)) 0 0 0 0
             else if period = ''thisYear'' then newDate z (getFullYear z now) 0 1
             else newDate z (getFullYear z now) (getMonth z now) 1);
          s' = s\<lparr>aggregateCalls := aggregateCalls s + 1\<rparr>
      in if limit \<le> 0 then (Inl MONGO_ERROR, s')
         else (Inr (topPipeline (billsOf db email) startDate (nat limit)), s'))"

section \<open>Example billing history\<close>

definition exBillAt :: "int \<Rightarrow> rat \<Rightarrow> product list \<Rightarrow> billing" where
  "exBillAt t amount ps = \<lparr>customerName = ''Asha'', customerAge = 30, phone = ''9000000000'',
                           productList = ps, totalAmount = amount, createdAt = t\<rparr>"

text \<open>
  Three bills on 1 March 2024 (11:00, 12:30 and 15:00), two on 2 March (10:00 and 16:00)
  and one on 5 March at 08:00.
\<close>

definition exHistory :: "billing list" where
  "exHistory =
     [exBillAt 1709290800000 50 [exLine ''PARA500'' 20, exLine ''IBU200'' 5],
      exBillAt 1709296200000 50 [exLine ''PARA500'' 25],
      exBillAt 1709305200000 50 [exLine ''IBU200'' 25],
      exBillAt 1709373600000 40 [exLine ''PARA500'' 20],
      exBillAt 1709395200000 40 [exLine ''CETZ10'' 20],
      exBillAt 1709625600000 40 [exLine ''IBU200'' 20]]"

definition exSalesDb :: stores where
  "exSalesDb = [''s@mims.in'' \<mapsto> \<lparr>storeEmail = ''s@mims.in'', stock = [], billingHistory = exHistory\<rparr>]"

definition emptyState :: serviceState where
  "emptyState = \<lparr>analyticsCache = Map.empty, aggregateCalls = 0\<rparr>"

section \<open>Properties of the array helpers\<close>

lemma findIndex_None_iff: "findIndex P xs = None \<longleftrightarrow> (\<forall>x \<in> set xs. \<not> P x)"
  by (induction xs) auto

lemma findIndex_Some_split:
  "findIndex P xs = Some i \<Longrightarrow>
     \<exists>pre x post. xs = pre @ x # post \<and> length pre = i \<and> P x \<and> (\<forall>y \<in> set pre. \<not> P y)"
proof (induction xs arbitrary: i)
  case Nil
  then show ?case by simp
next
  case (Cons a xs)
  show ?case
  proof (cases "P a")
    case True
    with Cons.prems have "i = 0" by simp
    with True show ?thesis by (intro exI [of _ "[]"]) auto
  next
    case False
    with Cons.prems obtain j where j: "findIndex P xs = Some j" "i = Suc j" by auto
    from Cons.IH [OF j(1)] obtain pre x post
      where "xs = pre @ x # post" "length pre = j" "P x" "\<forall>y \<in> set pre. \<not> P y" by blast
    with False j(2) show ?thesis
      by (intro exI [of _ "a # pre"] exI [of _ x] exI [of _ post]) auto
  qed
qed

lemma findIndex_split_Some:
  "P x \<Longrightarrow> \<forall>y \<in> set pre. \<not> P y \<Longrightarrow> findIndex P (pre @ x # post) = Some (length pre)"
  by (induction pre) auto

lemma splice1_append: "splice1 (length pre) (pre @ x # post) = pre @ post"
  by (simp add: splice1_def)

section \<open>Conservation of stock in a billing transaction\<close>

lemma deductLine_Inr_split:
  assumes "deductLine stk p = Inr stk'"
  shows "\<exists>pre e post. stk = pre @ e # post \<and> medIDof e = pmedID p
           \<and> (\<forall>y \<in> set pre. medIDof y \<noteq> pmedID p) \<and> pquantity p \<le> quantity e
           \<and> stk' = (if quantity e = pquantity p then pre @ post
                      else pre @ e\<lparr>quantity := quantity e - pquantity p\<rparr> # post)"
proof -
  from assms obtain i where i: "stockIndex stk (pmedID p) = Some i"
    by (auto simp: deductLine_def Let_def split: option.splits)
  from findIndex_Some_split [OF i [unfolded stockIndex_def]] obtain pre e post
    where s: "stk = pre @ e # post" "length pre = i" "medIDof e = pmedID p"
      "\<forall>y \<in> set pre. medIDof y \<noteq> pmedID p" by blast
  from s(1,2) have nth: "stk ! i = e" by auto
  from s(1,2) have upd: "\<And>v. stk[i := v] = pre @ v # post" by auto
  from s(2) have spl: "\<And>v. splice1 i (pre @ v # post) = pre @ post"
    by (simp add: splice1_def)
  from assms i nth upd spl s(2) have "pquantity p \<le> quantity e"
    and "stk' = (if quantity e = pquantity p then pre @ post
                      else pre @ e\<lparr>quantity := quantity e - pquantity p\<rparr> # post)"
    by (auto simp: deductLine_def Let_def nth_append split: if_splits)
  with s show ?thesis by blast
qed

lemma medIDof_quantity_update [simp]: "medIDof (e\<lparr>quantity := q\<rparr>) = medIDof e"
  by (simp add: medIDof_def)

lemma deductLine_qtyOf:
  assumes "deductLine stk p = Inr stk'"
  shows "qtyOf m stk' = qtyOf m stk - (if pmedID p = m then pquantity p else 0)"
proof -
  from deductLine_Inr_split [OF assms] obtain pre e post
    where "stk = pre @ e # post" "medIDof e = pmedID p"
      "stk' = (if quantity e = pquantity p then pre @ post
               else pre @ e\<lparr>quantity := quantity e - pquantity p\<rparr> # post)" by blast
  then show ?thesis by (auto simp: qtyOf_def)
qed

lemma deductLine_total:
  assumes "deductLine stk p = Inr stk'"
  shows "sum_list (map quantity stk') = sum_list (map quantity stk) - pquantity p"
proof -
  from deductLine_Inr_split [OF assms] obtain pre e post
    where "stk = pre @ e # post"
      "stk' = (if quantity e = pquantity p then pre @ post
               else pre @ e\<lparr>quantity := quantity e - pquantity p\<rparr> # post)" by blast
  then show ?thesis by auto
qed

lemma deductLine_fresh_positive:
  assumes "deductLine stk p = Inr stk'" and "e' \<in> set stk'" and "e' \<notin> set stk"
  shows "0 < quantity e'"
proof -
  from deductLine_Inr_split [OF assms(1)] obtain pre e post
    where s: "stk = pre @ e # post" "pquantity p \<le> quantity e"
      "stk' = (if quantity e = pquantity p then pre @ post
               else pre @ e\<lparr>quantity := quantity e - pquantity p\<rparr> # post)" by blast
  with assms(2,3) have "e' = e\<lparr>quantity := quantity e - pquantity p\<rparr>" "quantity e \<noteq> pquantity p"
    by (auto split: if_splits)
  with s(2) show ?thesis by simp
qed

lemma deductStock_qtyOf:
  "deductStock stk ps = Inr stk' \<Longrightarrow> qtyOf m stk' = qtyOf m stk - requested m ps"
proof (induction ps arbitrary: stk)
  case Nil
  then show ?case by (simp add: requested_def)
next
  case (Cons p ps)
  then obtain stk1 where 1: "deductLine stk p = Inr stk1" and 2: "deductStock stk1 ps = Inr stk'"
    by (auto split: sum.splits)
  from Cons.IH [OF 2] deductLine_qtyOf [OF 1, of m] show ?case
    by (simp add: requested_def)
qed

lemma deductStock_total:
  "deductStock stk ps = Inr stk' \<Longrightarrow>
     sum_list (map quantity stk') = sum_list (map quantity stk) - sum_list (map pquantity ps)"
proof (induction ps arbitrary: stk)
  case Nil
  then show ?case by simp
next
  case (Cons p ps)
  then obtain stk1 where 1: "deductLine stk p = Inr stk1" and 2: "deductStock stk1 ps = Inr stk'"
    by (auto split: sum.splits)
  from Cons.IH [OF 2] deductLine_total [OF 1] show ?case by simp
qed

lemma deductStock_fresh_positive:
  "deductStock stk ps = Inr stk' \<Longrightarrow> e' \<in> set stk' \<Longrightarrow> e' \<notin> set stk \<Longrightarrow> 0 < quantity e'"
proof (induction ps arbitrary: stk)
  case Nil
  then show ?case by simp
next
  case (Cons p ps)
  then obtain stk1 where 1: "deductLine stk p = Inr stk1" and 2: "deductStock stk1 ps = Inr stk'"
    by (auto split: sum.splits)
  show ?case
  proof (cases "e' \<in> set stk1")
    case True
    from deductLine_fresh_positive [OF 1 True Cons.prems(3)] show ?thesis .
  next
    case False
    with Cons.IH [OF 2 Cons.prems(2)] show ?thesis .
  qed
qed

lemma createBilling_success_store:
  assumes "db (toLowerCase email) = Some st" and "createBilling db email bd now = (Inr r, db')"
  shows "\<exists>stk'. deductStock (stock st) (bd_products bd) = Inr stk' \<and>
           db' = db(toLowerCase email \<mapsto> st\<lparr>stock := stk',
             billingHistory := billingHistory st @
               [\<lparr>customerName = bd_customerName bd, customerAge = bd_customerAge bd,
                 phone = bd_phone bd, productList = bd_products bd,
                 totalAmount = bd_totalAmount bd, createdAt = now\<rparr>]\<rparr>)"
  using assms by (auto simp: createBilling_def Let_def split: sum.splits prod.splits)

text \<open>
  Claim C2. After a successful call, for every medicine the quantity held is the quantity
  held before minus the quantity the bill requests of it, and so for the totals; every
  entry that the call has changed holds a positive quantity, so no quantity becomes
  negative, and an entry whose quantity reaches 0 is removed: a ledger without negative
  (respectively zero) quantities stays so.
\<close>

theorem createBilling_conservation:
  assumes "db (toLowerCase email) = Some st"
    and "createBilling db email bd now = (Inr r, db')"
  shows "\<exists>st'. db' (toLowerCase email) = Some st'
           \<and> (\<forall>m. qtyOf m (stock st') = qtyOf m (stock st) - requested m (bd_products bd))
           \<and> sum_list (map quantity (stock st')) =
               sum_list (map quantity (stock st)) - sum_list (map pquantity (bd_products bd))
           \<and> (\<forall>e \<in> set (stock st'). e \<notin> set (stock st) \<longrightarrow> 0 < quantity e)
           \<and> ((\<forall>e \<in> set (stock st). 0 \<le> quantity e) \<longrightarrow> (\<forall>e \<in> set (stock st'). 0 \<le> quantity e))
           \<and> ((\<forall>e \<in> set (stock st). quantity e \<noteq> 0) \<longrightarrow> (\<forall>e \<in> set (stock st'). quantity e \<noteq> 0))"
proof -
  from createBilling_success_store [OF assms] obtain stk' bill
    where d: "deductStock (stock st) (bd_products bd) = Inr stk'"
      and db': "db' = db(toLowerCase email \<mapsto> st\<lparr>stock := stk', billingHistory := billingHistory st @ [bill]\<rparr>)"
    by blast
  let ?st' = "st\<lparr>stock := stk', billingHistory := billingHistory st @ [bill]\<rparr>"
  have fresh: "\<forall>e \<in> set stk'. e \<notin> set (stock st) \<longrightarrow> 0 < quantity e"
    using deductStock_fresh_positive [OF d] by blast
  have nonneg: "(\<forall>e \<in> set (stock st). 0 \<le> quantity e) \<longrightarrow> (\<forall>e \<in> set stk'. 0 \<le> quantity e)"
    using fresh by (meson less_imp_le)
  have nonzero: "(\<forall>e \<in> set (stock st). quantity e \<noteq> 0) \<longrightarrow> (\<forall>e \<in> set stk'. quantity e \<noteq> 0)"
    using fresh by (metis less_irrefl)
  have "db' (toLowerCase email) = Some ?st'" by (simp add: db')
  moreover have "\<forall>m. qtyOf m (stock ?st') = qtyOf m (stock st) - requested m (bd_products bd)"
    using deductStock_qtyOf [OF d] by simp
  moreover have "sum_list (map quantity (stock ?st')) =
      sum_list (map quantity (stock st)) - sum_list (map pquantity (bd_products bd))"
    using deductStock_total [OF d] by simp
  ultimately show ?thesis using fresh nonneg nonzero by (intro exI [of _ ?st']) simp
qed

lemma toLowerCase_example: "toLowerCase ''S@mims.in'' = ''s@mims.in''"
  by code_simp

lemma exDb_lookup: "exDb stk (toLowerCase ''S@mims.in'') = Some (exStore stk)"
  by (simp add: toLowerCase_example exDb_def)

lemma medIDof_exEntry [simp]: "medIDof (exEntry i b q) = Some i"
  by (simp add: medIDof_def exEntry_def exMed_def)

lemma pmedID_exLine [simp]: "pmedID (exLine i q) = Some i"
  by (simp add: pmedID_def exLine_def exMed_def)

lemma quantity_exEntry [simp]: "quantity (exEntry i b q) = q"
  by (simp add: exEntry_def)

lemma pquantity_exLine [simp]: "pquantity (exLine i q) = q"
  by (simp add: exLine_def)

lemma exEntry_update [simp]: "(exEntry i b q)\<lparr>quantity := q'\<rparr> = exEntry i b q'"
  by (simp add: exEntry_def)

lemma ex_deduct_all:
  "deductStock [exEntry ''PARA500'' [] 10, exEntry ''IBU200'' [] 4] [exLine ''PARA500'' 10]
     = Inr [exEntry ''IBU200'' [] 4]"
  by (simp add: deductLine_def stockIndex_def splice1_def)

text \<open>
  The theorem at the scenario of the specification: 10 units held, 10 units billed, and the
  entry is removed from the ledger.
\<close>

theorem createBilling_conservation_witness:
  "exDb [exEntry ''PARA500'' [] 10, exEntry ''IBU200'' [] 4] (toLowerCase ''S@mims.in'')
      = Some (exStore [exEntry ''PARA500'' [] 10, exEntry ''IBU200'' [] 4])
   \<and> fst (createBilling (exDb [exEntry ''PARA500'' [] 10, exEntry ''IBU200'' [] 4]) ''S@mims.in''
        (exBill [exLine ''PARA500'' 10]) 0)
      = Inr \<lparr>r_customerName = ''Asha'', r_totalAmount = 20, r_productCount = 1\<rparr>
   \<and> (\<exists>st'. snd (createBilling (exDb [exEntry ''PARA500'' [] 10, exEntry ''IBU200'' [] 4])
                ''S@mims.in'' (exBill [exLine ''PARA500'' 10]) 0) (toLowerCase ''S@mims.in'') = Some st'
          \<and> sum_list (map quantity (stock st')) = 14 - 10
          \<and> (\<forall>e \<in> set (stock st'). quantity e \<noteq> 0))"
proof -
  let ?stk = "[exEntry ''PARA500'' [] 10, exEntry ''IBU200'' [] 4]"
  let ?res = "createBilling (exDb ?stk) ''S@mims.in'' (exBill [exLine ''PARA500'' 10]) 0"
  have h1: "exDb ?stk (toLowerCase ''S@mims.in'') = Some (exStore ?stk)"
    by (rule exDb_lookup)
  have h2: "fst ?res = Inr \<lparr>r_customerName = ''Asha'', r_totalAmount = 20, r_productCount = 1\<rparr>"
    by (simp add: createBilling_def h1 ex_deduct_all exStore_def exBill_def del: deductStock.simps)
  then have h3: "?res = (Inr \<lparr>r_customerName = ''Asha'', r_totalAmount = 20, r_productCount = 1\<rparr>, snd ?res)"
    by (metis prod.collapse)
  from createBilling_conservation [OF h1 h3] h1 h2 show ?thesis
    by (auto simp: exStore_def exBill_def)
qed

section \<open>Atomicity of a failed billing transaction\<close>

lemma deductStock_append:
  "deductStock stk (pre @ ps) =
     (case deductStock stk pre of Inl e \<Rightarrow> Inl e | Inr stk' \<Rightarrow> deductStock stk' ps)"
  by (induction pre arbitrary: stk) (auto split: sum.splits)

lemma deductLine_absent:
  "stockIndex stk (pmedID p) = None \<Longrightarrow> deductLine stk p = Inl (MEDICINE_NOT_FOUND (pmedID p), stk)"
  by (simp add: deductLine_def)

lemma deductLine_insufficient:
  "stockIndex stk (pmedID p) = Some i \<Longrightarrow> quantity (stk ! i) < pquantity p \<Longrightarrow>
     deductLine stk p = Inl (INSUFFICIENT_STOCK (pmedID p), stk)"
  by (simp add: deductLine_def)

lemma stockIndex_None_iff: "stockIndex stk m = None \<longleftrightarrow> (\<forall>e \<in> set stk. medIDof e \<noteq> m)"
  by (simp add: stockIndex_def findIndex_None_iff)


lemma deductLine_medIDs:
  assumes "deductLine stk p = Inr stk'"
  shows "medIDof ` set stk' \<subseteq> medIDof ` set stk"
proof -
  from deductLine_Inr_split [OF assms] obtain pre e post
    where "stk = pre @ e # post"
      "stk' = (if quantity e = pquantity p then pre @ post
               else pre @ e\<lparr>quantity := quantity e - pquantity p\<rparr> # post)" by blast
  then show ?thesis by (auto split: if_splits)
qed

lemma deductStock_medIDs:
  "deductStock stk ps = Inr stk' \<Longrightarrow> medIDof ` set stk' \<subseteq> medIDof ` set stk"
proof (induction ps arbitrary: stk)
  case Nil
  then show ?case by simp
next
  case (Cons p ps)
  then obtain stk1 where 1: "deductLine stk p = Inr stk1" and 2: "deductStock stk1 ps = Inr stk'"
    by (auto split: sum.splits)
  from Cons.IH [OF 2] deductLine_medIDs [OF 1] show ?case by blast
qed









section \<open>A medicine billed on two lines\<close>

lemma stockIndex_split:
  assumes "stockIndex stk m = Some i"
  shows "\<exists>pre e post. stk = pre @ e # post \<and> length pre = i \<and> medIDof e = m
           \<and> (\<forall>y \<in> set pre. medIDof y \<noteq> m)"
  using findIndex_Some_split [OF assms [unfolded stockIndex_def]] by blast

lemma entriesOf_Nil_iff: "entriesOf m stk = [] \<longleftrightarrow> stockIndex stk m = None"
  by (auto simp: entriesOf_def stockIndex_None_iff filter_empty_conv)

lemma entriesOf_located:
  assumes "stockIndex stk m = Some i"
  shows "\<exists>es. entriesOf m stk = (stk ! i) # es"
proof -
  from stockIndex_split [OF assms] obtain pre e post
    where s: "stk = pre @ e # post" "length pre = i" "medIDof e = m" "\<forall>y \<in> set pre. medIDof y \<noteq> m"
    by blast
  then have "stk ! i = e" by auto
  moreover from s have "entriesOf m stk = e # entriesOf m post"
    by (simp add: entriesOf_def)
  ultimately show ?thesis by simp
qed

lemma entriesOf_Cons_located:
  assumes "entriesOf m stk = e # es"
  shows "\<exists>i. stockIndex stk m = Some i \<and> stk ! i = e"
proof -
  from assms have "stockIndex stk m \<noteq> None" using entriesOf_Nil_iff [of m stk] by simp
  then obtain i where i: "stockIndex stk m = Some i" by blast
  from entriesOf_located [OF i] assms have "stk ! i = e" by auto
  with i show ?thesis by blast
qed

lemma deductLine_entriesOf_same:
  assumes "deductLine stk p = Inr stk'"
  shows "\<exists>e es. entriesOf (pmedID p) stk = e # es \<and> pquantity p \<le> quantity e
           \<and> entriesOf (pmedID p) stk' =
               (if quantity e = pquantity p then es
                else e\<lparr>quantity := quantity e - pquantity p\<rparr> # es)"
proof -
  from deductLine_Inr_split [OF assms] obtain pre e post
    where s: "stk = pre @ e # post" "medIDof e = pmedID p"
      "\<forall>y \<in> set pre. medIDof y \<noteq> pmedID p" "pquantity p \<le> quantity e"
      "stk' = (if quantity e = pquantity p then pre @ post
               else pre @ e\<lparr>quantity := quantity e - pquantity p\<rparr> # post)" by blast
  then have "entriesOf (pmedID p) stk = e # entriesOf (pmedID p) post"
    and "entriesOf (pmedID p) stk' =
               (if quantity e = pquantity p then entriesOf (pmedID p) post
                else e\<lparr>quantity := quantity e - pquantity p\<rparr> # entriesOf (pmedID p) post)"
    by (simp_all add: entriesOf_def)
  with s(4) show ?thesis by blast
qed

lemma deductLine_entriesOf_other:
  assumes "deductLine stk p = Inr stk'" and "pmedID p \<noteq> m"
  shows "entriesOf m stk' = entriesOf m stk"
proof -
  from deductLine_Inr_split [OF assms(1)] obtain pre e post
    where "stk = pre @ e # post" "medIDof e = pmedID p"
      "stk' = (if quantity e = pquantity p then pre @ post
               else pre @ e\<lparr>quantity := quantity e - pquantity p\<rparr> # post)" by blast
  with assms(2) show ?thesis by (simp add: entriesOf_def)
qed

lemma deductStock_entriesOf_other:
  "deductStock stk ps = Inr stk' \<Longrightarrow> \<forall>p \<in> set ps. pmedID p \<noteq> m \<Longrightarrow>
     entriesOf m stk' = entriesOf m stk"
proof (induction ps arbitrary: stk)
  case Nil
  then show ?case by simp
next
  case (Cons p ps)
  then obtain stk1 where 1: "deductLine stk p = Inr stk1" and 2: "deductStock stk1 ps = Inr stk'"
    by (auto split: sum.splits)
  from Cons.prems(2) have "pmedID p \<noteq> m" "\<forall>p \<in> set ps. pmedID p \<noteq> m" by simp_all
  with Cons.IH [OF 2] deductLine_entriesOf_other [OF 1] show ?case by simp
qed

lemma deductLine_by_entries:
  "entriesOf (pmedID p) stk = [] \<Longrightarrow> deductLine stk p = Inl (MEDICINE_NOT_FOUND (pmedID p), stk)"
  "entriesOf (pmedID p) stk = e # es \<Longrightarrow> quantity e < pquantity p \<Longrightarrow>
     deductLine stk p = Inl (INSUFFICIENT_STOCK (pmedID p), stk)"
proof -
  assume "entriesOf (pmedID p) stk = []"
  then show "deductLine stk p = Inl (MEDICINE_NOT_FOUND (pmedID p), stk)"
    by (simp add: entriesOf_Nil_iff deductLine_absent)
next
  assume a: "entriesOf (pmedID p) stk = e # es" "quantity e < pquantity p"
  from entriesOf_Cons_located [OF a(1)] obtain i
    where "stockIndex stk (pmedID p) = Some i" "stk ! i = e" by blast
  with a(2) show "deductLine stk p = Inl (INSUFFICIENT_STOCK (pmedID p), stk)"
    by (simp add: deductLine_insufficient)
qed

lemma deductLine_accept_by_entries:
  assumes "entriesOf (pmedID p) stk = e # es" and "pquantity p \<le> quantity e"
  shows "\<exists>stk'. deductLine stk p = Inr stk'"
proof -
  from entriesOf_Cons_located [OF assms(1)] obtain i
    where "stockIndex stk (pmedID p) = Some i" "stk ! i = e" by blast
  with assms(2) show ?thesis by (simp add: deductLine_def Let_def)
qed

text \<open>
  Claim C10, as amended. Let the lines before the earlier line \<open>la\<close> be accepted, leaving
  the in-memory ledger \<open>stk\<close> whose entries of medicine \<open>m\<close> are \<open>e1\<close> and then \<open>es\<close>;
  let \<open>la\<close> be accepted, and the lines between \<open>la\<close> and the later line \<open>lb\<close> be accepted
  too. The later line is validated against the ledger that these deductions leave:
  if \<open>la\<close> takes the whole quantity of \<open>e1\<close> and no other entry of \<open>m\<close> is held, \<open>lb\<close> fails
  with \<open>MEDICINE_NOT_FOUND\<close> of \<open>m\<close>. When the lines in between are for other medicines:
  if \<open>la\<close> leaves a positive quantity in \<open>e1\<close> that is less than what \<open>lb\<close> requests, \<open>lb\<close>
  fails with \<open>INSUFFICIENT_STOCK\<close> of \<open>m\<close>; if \<open>la\<close> takes the whole quantity of \<open>e1\<close> and
  another entry \<open>e2\<close> of \<open>m\<close> is held, \<open>lb\<close> is validated against \<open>e2\<close>: it fails with
  \<open>INSUFFICIENT_STOCK\<close> of \<open>m\<close> when \<open>e2\<close> holds less than it requests, and otherwise it is
  accepted and deducted from \<open>e2\<close>. Nothing is stored when the call fails.
\<close>

theorem createBilling_repeated_medicine:
  assumes st: "db (toLowerCase email) = Some st"
    and bill: "bd_products bd = pre @ la # mid @ lb # rest"
    and pre: "deductStock (stock st) pre = Inr stk"
    and la: "pmedID la = m" and lb: "pmedID lb = m"
    and ents: "entriesOf m stk = e1 # es"
    and first: "deductLine stk la = Inr stk1"
    and between: "deductStock stk1 mid = Inr stk2"
  shows "(pquantity la = quantity e1 \<and> es = [] \<longrightarrow>
            createBilling db email bd now = (Inl (MEDICINE_NOT_FOUND m), db))
       \<and> ((\<forall>p \<in> set mid. pmedID p \<noteq> m) \<and> pquantity la < quantity e1
            \<and> quantity e1 - pquantity la < pquantity lb \<longrightarrow>
            createBilling db email bd now = (Inl (INSUFFICIENT_STOCK m), db))
       \<and> (\<forall>e2 es'. (\<forall>p \<in> set mid. pmedID p \<noteq> m) \<and> pquantity la = quantity e1
            \<and> es = e2 # es' \<and> quantity e2 < pquantity lb \<longrightarrow>
            createBilling db email bd now = (Inl (INSUFFICIENT_STOCK m), db))
       \<and> (\<forall>e2 es'. (\<forall>p \<in> set mid. pmedID p \<noteq> m) \<and> pquantity la = quantity e1
            \<and> es = e2 # es' \<and> pquantity lb \<le> quantity e2 \<longrightarrow>
            (\<exists>stk3. deductStock (stock st) (pre @ la # mid @ [lb]) = Inr stk3
               \<and> entriesOf m stk3 =
                   (if quantity e2 = pquantity lb then es'
                    else e2\<lparr>quantity := quantity e2 - pquantity lb\<rparr> # es')))"
proof -
  from deductLine_entriesOf_same [OF first] la ents
  have after_la: "pquantity la \<le> quantity e1"
    "entriesOf m stk1 = (if quantity e1 = pquantity la then es
                          else e1\<lparr>quantity := quantity e1 - pquantity la\<rparr> # es)"
    by auto
  have upto: "deductStock (stock st) (pre @ la # mid @ ps) = deductStock stk2 ps" for ps
    by (simp add: deductStock_append pre first between)
  have fails: "createBilling db email bd now = (Inl e, db)" if "deductLine stk2 lb = Inl (e, stk2)" for e
  proof -
    from that have "deductStock (stock st) (bd_products bd) = Inl (e, stk2)"
      using upto [of "lb # rest"] by (simp add: bill)
    then show ?thesis by (simp add: createBilling_def st)
  qed
  have other: "entriesOf m stk2 = entriesOf m stk1" if "\<forall>p \<in> set mid. pmedID p \<noteq> m"
    using deductStock_entriesOf_other [OF between that] .
  show ?thesis
  proof (intro conjI impI allI)
    assume a: "pquantity la = quantity e1 \<and> es = []"
    with after_la have "m \<notin> medIDof ` set stk1"
      by (auto simp: entriesOf_def filter_empty_conv)
    with deductStock_medIDs [OF between] have "m \<notin> medIDof ` set stk2" by blast
    then have "entriesOf (pmedID lb) stk2 = []"
      by (auto simp: entriesOf_def filter_empty_conv lb)
    from deductLine_by_entries(1) [OF this] lb
    show "createBilling db email bd now = (Inl (MEDICINE_NOT_FOUND m), db)"
      by (simp add: fails)
  next
    assume a: "(\<forall>p \<in> set mid. pmedID p \<noteq> m) \<and> pquantity la < quantity e1
            \<and> quantity e1 - pquantity la < pquantity lb"
    with after_la other
    have "entriesOf (pmedID lb) stk2 = e1\<lparr>quantity := quantity e1 - pquantity la\<rparr> # es"
      by (simp add: lb)
    from deductLine_by_entries(2) [OF this] a lb
    show "createBilling db email bd now = (Inl (INSUFFICIENT_STOCK m), db)"
      by (simp add: fails)
  next
    fix e2 es'
    assume a: "(\<forall>p \<in> set mid. pmedID p \<noteq> m) \<and> pquantity la = quantity e1
            \<and> es = e2 # es' \<and> quantity e2 < pquantity lb"
    with after_la other have "entriesOf (pmedID lb) stk2 = e2 # es'"
      by (simp add: lb)
    from deductLine_by_entries(2) [OF this] a lb
    show "createBilling db email bd now = (Inl (INSUFFICIENT_STOCK m), db)"
      by (simp add: fails)
  next
    fix e2 es'
    assume a: "(\<forall>p \<in> set mid. pmedID p \<noteq> m) \<and> pquantity la = quantity e1
            \<and> es = e2 # es' \<and> pquantity lb \<le> quantity e2"
    with after_la other have e: "entriesOf (pmedID lb) stk2 = e2 # es'"
      by (simp add: lb)
    from deductLine_accept_by_entries [OF e] a obtain stk3
      where 3: "deductLine stk2 lb = Inr stk3" by blast
    from deductLine_entriesOf_same [OF 3] e lb
    have "entriesOf m stk3 = (if quantity e2 = pquantity lb then es'
                    else e2\<lparr>quantity := quantity e2 - pquantity lb\<rparr> # es')"
      by auto
    moreover from 3 have "deductStock (stock st) (pre @ la # mid @ [lb]) = Inr stk3"
      using upto [of "[lb]"] by simp
    ultimately show "\<exists>stk3. deductStock (stock st) (pre @ la # mid @ [lb]) = Inr stk3
               \<and> entriesOf m stk3 =
                   (if quantity e2 = pquantity lb then es'
                    else e2\<lparr>quantity := quantity e2 - pquantity lb\<rparr> # es')"
      by blast
  qed
qed

text \<open>
  The theorem at a ledger with two batches of one medicine, of 5 and 3 units, and a bill
  that asks for 5 and later for 4 of it, with lines of another medicine before and in
  between: the later line is validated against the second batch and fails with
  \<open>INSUFFICIENT_STOCK\<close>. With the first batch alone in the ledger the later line fails
  with \<open>MEDICINE_NOT_FOUND\<close>.
\<close>

theorem createBilling_repeated_medicine_witness:
  "createBilling (exDb [exEntry ''PARA500'' ''B1'' 5, exEntry ''PARA500'' ''B2'' 3, exEntry ''IBU200'' [] 4])
       ''S@mims.in''
       (exBill [exLine ''IBU200'' 1, exLine ''PARA500'' 5, exLine ''IBU200'' 1, exLine ''PARA500'' 4]) 0
     = (Inl (INSUFFICIENT_STOCK (Some ''PARA500'')),
        exDb [exEntry ''PARA500'' ''B1'' 5, exEntry ''PARA500'' ''B2'' 3, exEntry ''IBU200'' [] 4])
   \<and> createBilling (exDb [exEntry ''PARA500'' ''B1'' 5, exEntry ''IBU200'' [] 4])
       ''S@mims.in''
       (exBill [exLine ''IBU200'' 1, exLine ''PARA500'' 5, exLine ''IBU200'' 1, exLine ''PARA500'' 4]) 0
     = (Inl (MEDICINE_NOT_FOUND (Some ''PARA500'')),
        exDb [exEntry ''PARA500'' ''B1'' 5, exEntry ''IBU200'' [] 4])"
proof -
  let ?bd = "exBill [exLine ''IBU200'' 1, exLine ''PARA500'' 5, exLine ''IBU200'' 1, exLine ''PARA500'' 4]"
  have bill: "bd_products ?bd = [exLine ''IBU200'' 1] @ exLine ''PARA500'' 5 # [exLine ''IBU200'' 1]
                @ exLine ''PARA500'' 4 # []"
    by (simp add: exBill_def)
  have ids: "pmedID (exLine ''PARA500'' q) = Some ''PARA500''" for q by simp
  have mid: "\<forall>p \<in> set [exLine ''IBU200'' 1]. pmedID p \<noteq> Some ''PARA500''" by simp
  let ?two = "[exEntry ''PARA500'' ''B1'' 5, exEntry ''PARA500'' ''B2'' 3, exEntry ''IBU200'' [] 4]"
  have a: "createBilling (exDb ?two) ''S@mims.in'' ?bd 0
             = (Inl (INSUFFICIENT_STOCK (Some ''PARA500'')), exDb ?two)"
  proof -
    have pre: "deductStock (stock (exStore ?two)) [exLine ''IBU200'' 1]
        = Inr [exEntry ''PARA500'' ''B1'' 5, exEntry ''PARA500'' ''B2'' 3, exEntry ''IBU200'' [] 3]"
      by (simp add: exStore_def deductLine_def stockIndex_def)
    have ents: "entriesOf (Some ''PARA500'')
          [exEntry ''PARA500'' ''B1'' 5, exEntry ''PARA500'' ''B2'' 3, exEntry ''IBU200'' [] 3]
        = exEntry ''PARA500'' ''B1'' 5 # [exEntry ''PARA500'' ''B2'' 3]"
      by (simp add: entriesOf_def)
    have first: "deductLine [exEntry ''PARA500'' ''B1'' 5, exEntry ''PARA500'' ''B2'' 3, exEntry ''IBU200'' [] 3]
          (exLine ''PARA500'' 5)
        = Inr [exEntry ''PARA500'' ''B2'' 3, exEntry ''IBU200'' [] 3]"
      by (simp add: deductLine_def stockIndex_def splice1_def)
    have between: "deductStock [exEntry ''PARA500'' ''B2'' 3, exEntry ''IBU200'' [] 3] [exLine ''IBU200'' 1]
        = Inr [exEntry ''PARA500'' ''B2'' 3, exEntry ''IBU200'' [] 2]"
      by (simp add: deductLine_def stockIndex_def)
    from createBilling_repeated_medicine [where db = "exDb ?two" and email = "''S@mims.in''"
        and now = 0, OF exDb_lookup bill pre ids ids ents first between] mid
    show ?thesis by simp
  qed
  let ?one = "[exEntry ''PARA500'' ''B1'' 5, exEntry ''IBU200'' [] 4]"
  have b: "createBilling (exDb ?one) ''S@mims.in'' ?bd 0
             = (Inl (MEDICINE_NOT_FOUND (Some ''PARA500'')), exDb ?one)"
  proof -
    have pre: "deductStock (stock (exStore ?one)) [exLine ''IBU200'' 1]
        = Inr [exEntry ''PARA500'' ''B1'' 5, exEntry ''IBU200'' [] 3]"
      by (simp add: exStore_def deductLine_def stockIndex_def)
    have ents: "entriesOf (Some ''PARA500'') [exEntry ''PARA500'' ''B1'' 5, exEntry ''IBU200'' [] 3]
        = exEntry ''PARA500'' ''B1'' 5 # []"
      by (simp add: entriesOf_def)
    have first: "deductLine [exEntry ''PARA500'' ''B1'' 5, exEntry ''IBU200'' [] 3] (exLine ''PARA500'' 5)
        = Inr [exEntry ''IBU200'' [] 3]"
      by (simp add: deductLine_def stockIndex_def splice1_def)
    have between: "deductStock [exEntry ''IBU200'' [] 3] [exLine ''IBU200'' 1]
        = Inr [exEntry ''IBU200'' [] 2]"
      by (simp add: deductLine_def stockIndex_def)
    from createBilling_repeated_medicine [where db = "exDb ?one" and email = "''S@mims.in''"
        and now = 0, OF exDb_lookup bill pre ids ids ents first between]
    show ?thesis by simp
  qed
  from a b show ?thesis by blast
qed

text \<open>
  Claim C10 as stated fails when the ledger holds a second entry (another batch) of the
  medicine: the first line takes the whole first entry, which is removed, and the second
  line is served from the second entry; the call succeeds.
\<close>

theorem createBilling_repeated_medicine_counterexample:
  "stockIndex [exEntry ''PARA500'' ''B1'' 5, exEntry ''PARA500'' ''B2'' 3] (pmedID (exLine ''PARA500'' 5)) = Some 0
   \<and> quantity ([exEntry ''PARA500'' ''B1'' 5, exEntry ''PARA500'' ''B2'' 3] ! 0) - pquantity (exLine ''PARA500'' 5) = 0
   \<and> deductStock [exEntry ''PARA500'' ''B1'' 5, exEntry ''PARA500'' ''B2'' 3]
        [exLine ''PARA500'' 5, exLine ''PARA500'' 2] = Inr [exEntry ''PARA500'' ''B2'' 1]
   \<and> fst (createBilling (exDb [exEntry ''PARA500'' ''B1'' 5, exEntry ''PARA500'' ''B2'' 3]) ''S@mims.in''
        (exBill [exLine ''PARA500'' 5, exLine ''PARA500'' 2]) 0)
      = Inr \<lparr>r_customerName = ''Asha'', r_totalAmount = 20, r_productCount = 2\<rparr>"
proof -
  have d: "deductStock [exEntry ''PARA500'' ''B1'' 5, exEntry ''PARA500'' ''B2'' 3]
        [exLine ''PARA500'' 5, exLine ''PARA500'' 2] = Inr [exEntry ''PARA500'' ''B2'' 1]"
    by (simp add: deductLine_def stockIndex_def splice1_def)
  have "fst (createBilling (exDb [exEntry ''PARA500'' ''B1'' 5, exEntry ''PARA500'' ''B2'' 3]) ''S@mims.in''
        (exBill [exLine ''PARA500'' 5, exLine ''PARA500'' 2]) 0)
      = Inr \<lparr>r_customerName = ''Asha'', r_totalAmount = 20, r_productCount = 2\<rparr>"
    by (simp add: createBilling_def exDb_lookup d exStore_def exBill_def del: deductStock.simps)
  with d show ?thesis by (simp add: stockIndex_def del: deductStock.simps)
qed

section \<open>Matching of stock entries when adding and when deducting\<close>

lemma findIndex_conj:
  "findIndex (\<lambda>x. P x \<and> Q x) xs = Some i \<Longrightarrow>
     \<exists>j \<le> i. findIndex P xs = Some j \<and> (j = i \<longleftrightarrow> Q (xs ! j))"
proof (induction xs arbitrary: i)
  case Nil
  then show ?case by simp
next
  case (Cons a xs)
  show ?case
  proof (cases "P a")
    case True
    with Cons.prems show ?thesis by (cases "Q a") auto
  next
    case False
    with Cons.prems obtain k where k: "findIndex (\<lambda>x. P x \<and> Q x) xs = Some k" "i = Suc k"
      by auto
    from Cons.IH [OF k(1)] obtain j where "j \<le> k" "findIndex P xs = Some j" "j = k \<longleftrightarrow> Q (xs ! j)"
      by blast
    with False k(2) show ?thesis by (intro exI [of _ "Suc j"]) auto
  qed
qed

text \<open>
  Claim C4, as amended. \<^verbatim>\<open>createBilling\<close> and \<^verbatim>\<open>removeFromStock\<close> always locate
  the same entry, the first one with the medicine ID. \<^verbatim>\<open>addToStock\<close> called without
  a batch number (absent or empty) merges into that same entry. Called with a batch number,
  it merges into the first entry with that medicine ID and that batch number; the deduct
  paths then locate an entry at the same or an earlier index, and it is the same entry
  exactly when the first entry with the medicine ID carries that batch number.
\<close>

theorem addToStock_deduct_matching:
  "stockIndex stk m = removeExistingIndex stk m
   \<and> (batch = None \<or> batch = Some [] \<longrightarrow> addExistingIndex stk m batch = stockIndex stk m)
   \<and> (\<forall>b i. batch = Some b \<and> b \<noteq> [] \<and> addExistingIndex stk m batch = Some i \<longrightarrow>
         (\<exists>j \<le> i. stockIndex stk m = Some j \<and> (j = i \<longleftrightarrow> batchNumber (stk ! j) = b)))"
proof (intro conjI impI allI)
  show "stockIndex stk m = removeExistingIndex stk m"
    by (simp add: stockIndex_def removeExistingIndex_def)
next
  assume "batch = None \<or> batch = Some []"
  then show "addExistingIndex stk m batch = stockIndex stk m"
    by (auto simp: addExistingIndex_def stockIndex_def)
next
  fix b i
  assume "batch = Some b \<and> b \<noteq> [] \<and> addExistingIndex stk m batch = Some i"
  then have "findIndex (\<lambda>med. medIDof med = m \<and> batchNumber med = b) stk = Some i"
    by (auto simp: addExistingIndex_def)
  from findIndex_conj [OF this]
  show "\<exists>j \<le> i. stockIndex stk m = Some j \<and> (j = i \<longleftrightarrow> batchNumber (stk ! j) = b)"
    by (simp add: stockIndex_def)
qed

lemma batchNumber_exEntry [simp]: "batchNumber (exEntry i b q) = b"
  by (simp add: exEntry_def)

text \<open>
  The theorem at a ledger with two batches of one medicine: stock added to batch B2 goes
  to index 1, and the deduct paths locate index 0, whose batch is B1.
\<close>

theorem addToStock_deduct_matching_witness:
  "addExistingIndex [exEntry ''PARA500'' ''B1'' 5, exEntry ''PARA500'' ''B2'' 3]
      (Some ''PARA500'') (Some ''B2'') = Some 1
   \<and> addExistingIndex [exEntry ''PARA500'' ''B1'' 5, exEntry ''PARA500'' ''B2'' 3]
      (Some ''PARA500'') None = Some 0
   \<and> (\<exists>j \<le> 1. stockIndex [exEntry ''PARA500'' ''B1'' 5, exEntry ''PARA500'' ''B2'' 3]
          (Some ''PARA500'') = Some j
        \<and> (j = 1 \<longleftrightarrow>
             batchNumber ([exEntry ''PARA500'' ''B1'' 5, exEntry ''PARA500'' ''B2'' 3] ! j) = ''B2''))"
proof -
  let ?stk = "[exEntry ''PARA500'' ''B1'' 5, exEntry ''PARA500'' ''B2'' 3]"
  have h1: "addExistingIndex ?stk (Some ''PARA500'') (Some ''B2'') = Some 1"
    by (simp add: addExistingIndex_def)
  have h2: "addExistingIndex ?stk (Some ''PARA500'') None = Some 0"
    by (simp add: addExistingIndex_def)
  from addToStock_deduct_matching [of ?stk "Some ''PARA500''" "Some ''B2''"] h1
  have "\<exists>j \<le> 1. stockIndex ?stk (Some ''PARA500'') = Some j
        \<and> (j = 1 \<longleftrightarrow> batchNumber (?stk ! j) = ''B2'')"
    by blast
  with h1 h2 show ?thesis by blast
qed

text \<open>
  Claim C4 as stated fails at that ledger: \<^verbatim>\<open>addToStock\<close> for batch B2 merges into
  the entry at index 1, while \<^verbatim>\<open>createBilling\<close> and \<^verbatim>\<open>removeFromStock\<close> deduct
  from the entry at index 0.
\<close>

theorem addToStock_deduct_matching_counterexample:
  "addExistingIndex [exEntry ''PARA500'' ''B1'' 5, exEntry ''PARA500'' ''B2'' 3]
      (Some ''PARA500'') (Some ''B2'')
     \<noteq> stockIndex [exEntry ''PARA500'' ''B1'' 5, exEntry ''PARA500'' ''B2'' 3] (Some ''PARA500'')
   \<and> addExistingIndex [exEntry ''PARA500'' ''B1'' 5, exEntry ''PARA500'' ''B2'' 3]
      (Some ''PARA500'') (Some ''B2'')
     \<noteq> removeExistingIndex [exEntry ''PARA500'' ''B1'' 5, exEntry ''PARA500'' ''B2'' 3] (Some ''PARA500'')"
  by (simp add: addExistingIndex_def stockIndex_def removeExistingIndex_def)

section \<open>The windows of a period\<close>

lemma le_div_iff_int:
  fixes k x b :: int
  assumes "0 < b"
  shows "k \<le> x div b \<longleftrightarrow> k * b \<le> x"
proof
  assume "k \<le> x div b"
  with assms have "k * b \<le> (x div b) * b" by simp
  also have "\<dots> \<le> x"
  proof -
    have "x = (x div b) * b + x mod b" by simp
    moreover from assms have "0 \<le> x mod b" by simp
    ultimately show ?thesis by linarith
  qed
  finally show "k * b \<le> x" .
next
  assume "k * b \<le> x"
  from this assms have "(k * b) div b \<le> x div b" by (rule zdiv_mono1)
  with assms show "k \<le> x div b" by simp
qed

lemma ceilDiv_le_iff:
  assumes "0 < b"
  shows "ceilDiv a b \<le> n \<longleftrightarrow> a \<le> n * b"
proof -
  have "ceilDiv a b \<le> n \<longleftrightarrow> - n \<le> (- a) div b" by (auto simp: ceilDiv_def)
  also have "\<dots> \<longleftrightarrow> (- n) * b \<le> - a" using assms by (rule le_div_iff_int)
  also have "\<dots> \<longleftrightarrow> a \<le> n * b" by simp
  finally show ?thesis .
qed

lemma ceilDiv_exact:
  assumes "0 < b"
  shows "ceilDiv a b * b = a \<longleftrightarrow> a mod b = 0"
proof
  assume "ceilDiv a b * b = a"
  then have "a = ceilDiv a b * b" by simp
  then have "b dvd a" by (metis dvd_triv_right)
  then show "a mod b = 0" by simp
next
  assume "a mod b = 0"
  then have "b dvd a" by (simp add: mod_eq_0_iff_dvd)
  then obtain q where q: "a = b * q" by (rule dvdE)
  with assms have "(- a) div b = - q"
    by (metis less_irrefl minus_mult_right nonzero_mult_div_cancel_left)
  with q show "ceilDiv a b * b = a" by (simp add: ceilDiv_def)
qed

lemma setDate_back:
  assumes "dstPeriods z = []"
  shows "setDate z t (getDate z t - k) = t - k * msPerDay"
  using setDate_shift [OF assms, of t "- k"] by simp

lemma setHours_fixed:
  assumes "dstPeriods z = []"
  shows "setHours z t h m s ms = Day (t + stdOffset z) * msPerDay + MakeTime h m s ms - stdOffset z"
  by (simp add: setHours_def MakeDate_def fixed_UTC [OF assms] fixed_LocalTime [OF assms])

lemma Day_of_day_start: "Day (d * msPerDay) = d"
  by (simp add: Day_def msPerDay_def)

lemma newDate_fixed:
  assumes "dstPeriods z = []"
  shows "newDate z y m d =
           MakeDay (if 0 \<le> y \<and> y \<le> 99 then 1900 + y else y) m d * msPerDay - stdOffset z"
  by (simp add: newDate_def MakeDate_def fixed_UTC [OF assms])

lemma newDate_day_zero:
  assumes "dstPeriods z = []"
  shows "newDate z y m 0 = newDate z y m 1 - msPerDay"
  by (simp add: newDate_fixed [OF assms] MakeDay_def Let_def algebra_simps)

lemma setHours_newDate_end:
  assumes "dstPeriods z = []"
  shows "setHours z (newDate z y m d) 23 59 59 999 = newDate z y m d + (msPerDay - 1)"
proof -
  let ?d = "MakeDay (if 0 \<le> y \<and> y \<le> 99 then 1900 + y else y) m d"
  have n: "newDate z y m d = ?d * msPerDay - stdOffset z" by (rule newDate_fixed [OF assms])
  have "setHours z (newDate z y m d) 23 59 59 999 =
          Day (newDate z y m d + stdOffset z) * msPerDay + MakeTime 23 59 59 999 - stdOffset z"
    by (rule setHours_fixed [OF assms])
  also have "Day (newDate z y m d + stdOffset z) = ?d"
    unfolding n by (simp only: diff_add_cancel Day_of_day_start)
  finally show ?thesis unfolding n by (simp add: MakeTime_def msPerDay_def)
qed

text \<open>
  Claim C3, as amended. On a server whose time zone has a constant offset from UTC (no
  daylight saving time): for the periods today, yesterday, thisWeek and custom the
  comparison window has the length of the current window, at every call time. For
  thisMonth the comparison window starts on the first day of the previous month and ends
  one millisecond before the current window starts: it is the whole previous month, whatever
  the length of the current window. For thisYear it runs from 1 January of the previous
  year to the last millisecond of the day that \<^verbatim>\<open>new Date(year - 1, month, date)\<close>
  names, with the month and the day number of \<open>now\<close>: the same day of the previous year,
  and 1 March when \<open>now\<close> is on 29 February.
\<close>

theorem resolvePeriod_comparison_length:
  assumes fixed: "dstPeriods z = []"
    and res: "resolvePeriod z period customStart customEnd now = Inr w"
  shows "(period \<in> {''today'', ''yesterday'', ''thisWeek'', ''custom''} \<longrightarrow>
            wComparisonEnd w - wComparisonStart w = wEnd w - wStart w)
       \<and> (period = ''thisMonth'' \<longrightarrow>
            wComparisonStart w = newDate z (getFullYear z now) (getMonth z now - 1) 1
            \<and> wComparisonEnd w = wStart w - 1)
       \<and> (period = ''thisYear'' \<longrightarrow>
            wComparisonStart w = newDate z (getFullYear z now - 1) 0 1
            \<and> wComparisonEnd w =
                newDate z (getFullYear z now - 1) (getMonth z now) (getDate z now) + (msPerDay - 1))"
proof (rule conjI; (rule conjI)?; rule impI)
  assume "period \<in> {''today'', ''yesterday'', ''thisWeek'', ''custom''}"
  with res show "wComparisonEnd w - wComparisonStart w = wEnd w - wStart w"
    by (auto simp: resolvePeriod_def Let_def setDate_back [OF fixed] split: if_splits)
next
  assume p: "period = ''thisMonth''"
  have e1: "setHours z (newDate z (getFullYear z now) (getMonth z now) 0) 23 59 59 999
          = newDate z (getFullYear z now) (getMonth z now) 0 + (msPerDay - 1)"
    by (rule setHours_newDate_end [OF fixed])
  have e2: "newDate z (getFullYear z now) (getMonth z now) 0
          = newDate z (getFullYear z now) (getMonth z now) 1 - msPerDay"
    by (rule newDate_day_zero [OF fixed])
  have "setHours z (newDate z (getFullYear z now) (getMonth z now) 0) 23 59 59 999
          = newDate z (getFullYear z now) (getMonth z now) 1 - 1"
    unfolding e1 using e2 by simp
  with res p show "wComparisonStart w = newDate z (getFullYear z now) (getMonth z now - 1) 1
            \<and> wComparisonEnd w = wStart w - 1"
    by (auto simp: resolvePeriod_def)
next
  assume p: "period = ''thisYear''"
  with res show "wComparisonStart w = newDate z (getFullYear z now - 1) 0 1
            \<and> wComparisonEnd w =
                newDate z (getFullYear z now - 1) (getMonth z now) (getDate z now) + (msPerDay - 1)"
    by (auto simp: resolvePeriod_def setHours_newDate_end [OF fixed])
qed

text \<open>
  The theorem in India: on 15 March 2024 at 17:30, for the week and for the month; and on
  29 February 2024 at 17:30 for the year, where the comparison window ends with 1 March
  2023.
\<close>

theorem resolvePeriod_comparison_length_witness:
  "dstPeriods indiaZone = []
   \<and> resolvePeriod indiaZone ''thisWeek'' None None 1710504000000
     = Inr \<lparr>wStart = 1710009000000, wEnd = 1710527399999,
            wComparisonStart = 1709404200000, wComparisonEnd = 1709922599999,
            wChartType = daily\<rparr>
   \<and> (1709922599999 - 1709404200000 = 1710527399999 - (1710009000000 :: int))
   \<and> resolvePeriod indiaZone ''thisMonth'' None None 1710504000000
     = Inr \<lparr>wStart = 1709231400000, wEnd = 1710527399999,
            wComparisonStart = 1706725800000, wComparisonEnd = 1709231399999,
            wChartType = daily\<rparr>
   \<and> (1709231399999 = 1709231400000 - (1 :: int))
   \<and> resolvePeriod indiaZone ''thisYear'' None None 1709208000000
     = Inr \<lparr>wStart = 1704047400000, wEnd = 1709231399999,
            wComparisonStart = 1672511400000, wComparisonEnd = 1677695399999,
            wChartType = monthly\<rparr>
   \<and> newDate indiaZone 2023 2 1 + (msPerDay - 1) = 1677695399999"
proof -
  have z: "dstPeriods indiaZone = []" by (simp add: indiaZone_def)
  have h1: "resolvePeriod indiaZone ''thisWeek'' None None 1710504000000
     = Inr \<lparr>wStart = 1710009000000, wEnd = 1710527399999,
            wComparisonStart = 1709404200000, wComparisonEnd = 1709922599999,
            wChartType = daily\<rparr>"
    by code_simp
  have h2: "resolvePeriod indiaZone ''thisMonth'' None None 1710504000000
     = Inr \<lparr>wStart = 1709231400000, wEnd = 1710527399999,
            wComparisonStart = 1706725800000, wComparisonEnd = 1709231399999,
            wChartType = daily\<rparr>"
    by code_simp
  have h3: "resolvePeriod indiaZone ''thisYear'' None None 1709208000000
     = Inr \<lparr>wStart = 1704047400000, wEnd = 1709231399999,
            wComparisonStart = 1672511400000, wComparisonEnd = 1677695399999,
            wChartType = monthly\<rparr>"
    by code_simp
  have h4: "newDate indiaZone 2023 2 1 + (msPerDay - 1) = 1677695399999" by code_simp
  from resolvePeriod_comparison_length [OF z h1] resolvePeriod_comparison_length [OF z h2]
    resolvePeriod_comparison_length [OF z h3] z h1 h2 h3 h4
  show ?thesis by simp
qed

text \<open>
  Claim C3 as stated fails for thisMonth and thisYear in every zone, and for today where
  the clocks change. In UTC on 15 March 2024, at noon: for thisMonth the current window is
  15 days long (less one millisecond) and the comparison window is the 29 days of
  February; for thisYear the current window is 75 days long, 2024 being a leap year, and
  the comparison window 74 days. In New York on 10 March 2024, the day on which daylight
  saving time starts, at 13:00: the window of today is 23 hours long, and the comparison
  window, the day before, 24 hours.
\<close>

theorem resolvePeriod_comparison_length_counterexample:
  "resolvePeriod utcZone ''thisMonth'' None None 1710504000000
     = Inr \<lparr>wStart = 1709251200000, wEnd = 1710547199999,
            wComparisonStart = 1706745600000, wComparisonEnd = 1709251199999,
            wChartType = daily\<rparr>
   \<and> (1709251199999 - 1706745600000 \<noteq> 1710547199999 - (1709251200000 :: int))
   \<and> resolvePeriod utcZone ''thisYear'' None None 1710504000000
     = Inr \<lparr>wStart = 1704067200000, wEnd = 1710547199999,
            wComparisonStart = 1672531200000, wComparisonEnd = 1678924799999,
            wChartType = monthly\<rparr>
   \<and> (1678924799999 - 1672531200000 \<noteq> 1710547199999 - (1704067200000 :: int))
   \<and> resolvePeriod newYorkZone ''today'' None None 1710090000000
     = Inr \<lparr>wStart = 1710046800000, wEnd = 1710129599999,
            wComparisonStart = 1709960400000, wComparisonEnd = 1710046799999,
            wChartType = hourly\<rparr>
   \<and> (1710046799999 - 1709960400000 \<noteq> 1710129599999 - (1710046800000 :: int))"
  by code_simp

section \<open>The custom period\<close>

text \<open>
  Claim C5, as amended. For a custom period with both dates, the chart is hourly when the
  span \<open>e - s\<close> is at most one day, daily when it is at most 31 days, and monthly
  otherwise; the comparison window is the current window moved back, in local time, by the
  span rounded up to whole days. On a server whose time zone has a constant offset from
  UTC this is \<open>[s - d, e - d]\<close> for \<open>d\<close> the span rounded up to a whole number of
  days, which is \<open>[s - span, e - span]\<close> exactly when the span is a whole number of days.
\<close>

theorem resolvePeriod_custom:
  "(\<exists>w. resolvePeriod z ''custom'' (Some s) (Some e) now = Inr w
        \<and> wStart w = s \<and> wEnd w = e
        \<and> wChartType w = (if e - s \<le> msPerDay then hourly
                           else if e - s \<le> 31 * msPerDay then daily else monthly)
        \<and> wComparisonStart w = UTC z (LocalTime z s - ceilDiv (e - s) msPerDay * msPerDay)
        \<and> wComparisonEnd w = UTC z (LocalTime z e - ceilDiv (e - s) msPerDay * msPerDay)
        \<and> (dstPeriods z = [] \<longrightarrow>
             wComparisonStart w = s - ceilDiv (e - s) msPerDay * msPerDay
             \<and> wComparisonEnd w = e - ceilDiv (e - s) msPerDay * msPerDay))
   \<and> ((e - s) mod msPerDay = 0 \<longrightarrow>
         s - ceilDiv (e - s) msPerDay * msPerDay = s - (e - s)
         \<and> e - ceilDiv (e - s) msPerDay * msPerDay = e - (e - s))
   \<and> ((e - s) mod msPerDay \<noteq> 0 \<longrightarrow>
         s - ceilDiv (e - s) msPerDay * msPerDay < s - (e - s))"
proof (rule conjI; (rule conjI)?)
  have pos: "0 < msPerDay" by (simp add: msPerDay_def)
  have c1: "ceilDiv (e - s) msPerDay \<le> 1 \<longleftrightarrow> e - s \<le> msPerDay"
    using ceilDiv_le_iff [OF pos, of "e - s" 1] by simp
  have c31: "ceilDiv (e - s) msPerDay \<le> 31 \<longleftrightarrow> e - s \<le> 31 * msPerDay"
    using ceilDiv_le_iff [OF pos, of "e - s" 31] by simp
  have d: "(1000 * 60 * 60 * 24 :: int) = msPerDay" by (simp add: msPerDay_def)
  let ?d = "ceilDiv (e - s) msPerDay"
  let ?w = "\<lparr>wStart = s, wEnd = e,
           wComparisonStart = setDate z s (getDate z s - ?d),
           wComparisonEnd = setDate z e (getDate z e - ?d),
           wChartType = (if e - s \<le> msPerDay then hourly
                         else if e - s \<le> 31 * msPerDay then daily else monthly)\<rparr>"
  have r: "resolvePeriod z ''custom'' (Some s) (Some e) now = Inr ?w"
    unfolding resolvePeriod_def d by (simp add: Let_def c1 c31)
  have ls: "setDate z s (getDate z s - ?d) = UTC z (LocalTime z s - ?d * msPerDay)"
    using setDate_local [of z s "- ?d"] by simp
  have le: "setDate z e (getDate z e - ?d) = UTC z (LocalTime z e - ?d * msPerDay)"
    using setDate_local [of z e "- ?d"] by simp
  have fs: "dstPeriods z = [] \<longrightarrow> setDate z s (getDate z s - ?d) = s - ?d * msPerDay"
    by (simp add: setDate_back)
  have fe: "dstPeriods z = [] \<longrightarrow> setDate z e (getDate z e - ?d) = e - ?d * msPerDay"
    by (simp add: setDate_back)
  show "\<exists>w. resolvePeriod z ''custom'' (Some s) (Some e) now = Inr w
        \<and> wStart w = s \<and> wEnd w = e
        \<and> wChartType w = (if e - s \<le> msPerDay then hourly
                           else if e - s \<le> 31 * msPerDay then daily else monthly)
        \<and> wComparisonStart w = UTC z (LocalTime z s - ceilDiv (e - s) msPerDay * msPerDay)
        \<and> wComparisonEnd w = UTC z (LocalTime z e - ceilDiv (e - s) msPerDay * msPerDay)
        \<and> (dstPeriods z = [] \<longrightarrow>
             wComparisonStart w = s - ceilDiv (e - s) msPerDay * msPerDay
             \<and> wComparisonEnd w = e - ceilDiv (e - s) msPerDay * msPerDay)"
    using r ls le fs fe by (intro exI [of _ ?w]) simp
next
  show "(e - s) mod msPerDay = 0 \<longrightarrow>
         s - ceilDiv (e - s) msPerDay * msPerDay = s - (e - s)
         \<and> e - ceilDiv (e - s) msPerDay * msPerDay = e - (e - s)"
  proof
    assume "(e - s) mod msPerDay = 0"
    then have "ceilDiv (e - s) msPerDay * msPerDay = e - s"
      using ceilDiv_exact [of msPerDay "e - s"] by (simp add: msPerDay_def)
    then show "s - ceilDiv (e - s) msPerDay * msPerDay = s - (e - s)
         \<and> e - ceilDiv (e - s) msPerDay * msPerDay = e - (e - s)" by simp
  qed
next
  show "(e - s) mod msPerDay \<noteq> 0 \<longrightarrow>
         s - ceilDiv (e - s) msPerDay * msPerDay < s - (e - s)"
  proof
    have pos: "0 < msPerDay" by (simp add: msPerDay_def)
    assume "(e - s) mod msPerDay \<noteq> 0"
    then have ne: "ceilDiv (e - s) msPerDay * msPerDay \<noteq> e - s"
      using ceilDiv_exact [OF pos, of "e - s"] by simp
    have "e - s \<le> ceilDiv (e - s) msPerDay * msPerDay"
      using ceilDiv_le_iff [OF pos, of "e - s" "ceilDiv (e - s) msPerDay"] by simp
    with ne show "s - ceilDiv (e - s) msPerDay * msPerDay < s - (e - s)" by simp
  qed
qed

text \<open>
  The theorem in India at a window of exactly two days, from 1 March 2024 to 3 March 2024
  (midnight to midnight, local time): the comparison window is the two days before.
\<close>

theorem resolvePeriod_custom_witness:
  "dstPeriods indiaZone = []
   \<and> (1709404200000 - 1709231400000) mod msPerDay = 0
   \<and> resolvePeriod indiaZone ''custom'' (Some 1709231400000) (Some 1709404200000) 0 =
       Inr \<lparr>wStart = 1709231400000, wEnd = 1709404200000,
             wComparisonStart = 1709231400000 - (1709404200000 - 1709231400000),
             wComparisonEnd = 1709404200000 - (1709404200000 - 1709231400000),
             wChartType = daily\<rparr>"
proof -
  have z: "dstPeriods indiaZone = []" by (simp add: indiaZone_def)
  have h: "(1709404200000 - 1709231400000) mod msPerDay = 0" by (simp add: msPerDay_def)
  from resolvePeriod_custom [of indiaZone 1709231400000 1709404200000 0]
  obtain w where w: "resolvePeriod indiaZone ''custom'' (Some 1709231400000) (Some 1709404200000) 0 = Inr w"
      "wStart w = 1709231400000" "wEnd w = 1709404200000"
      "wChartType w = (if 1709404200000 - 1709231400000 \<le> msPerDay then hourly
                       else if 1709404200000 - 1709231400000 \<le> 31 * msPerDay then daily else monthly)"
      "dstPeriods indiaZone = [] \<longrightarrow>
             wComparisonStart w = 1709231400000 - ceilDiv (1709404200000 - 1709231400000) msPerDay * msPerDay
             \<and> wComparisonEnd w = 1709404200000 - ceilDiv (1709404200000 - 1709231400000) msPerDay * msPerDay"
    by blast
  from resolvePeriod_custom [of indiaZone 1709231400000 1709404200000 0] h
  have e: "1709231400000 - ceilDiv (1709404200000 - 1709231400000) msPerDay * msPerDay
             = 1709231400000 - (1709404200000 - 1709231400000)"
      "1709404200000 - ceilDiv (1709404200000 - 1709231400000) msPerDay * msPerDay
             = 1709404200000 - (1709404200000 - 1709231400000)"
    by blast+
  have c: "wChartType w = daily" using w(4) by (simp add: msPerDay_def)
  have "w = \<lparr>wStart = 1709231400000, wEnd = 1709404200000,
             wComparisonStart = 1709231400000 - (1709404200000 - 1709231400000),
             wComparisonEnd = 1709404200000 - (1709404200000 - 1709231400000),
             wChartType = daily\<rparr>"
    using w(2,3,5) z e c by (cases w) simp
  with w(1) z h show ?thesis by simp
qed

text \<open>
  Claim C5 as stated fails, in UTC, at the window that the front end sends for one day,
  from 00:00:00.000 to 23:59:59.999 of 1 March 2024: the span is one day less one
  millisecond, and the comparison window starts one whole day before the start, not one
  span before. At the window of the first twelve hours of 1 March 2024 the comparison
  window is the first twelve hours of 29 February, not the twelve hours before the start.
  In New York, at the window of 24 hours from midnight of 10 March 2024, the day on which
  daylight saving time starts, the comparison window is 25 hours long.
\<close>

theorem resolvePeriod_custom_counterexample:
  "resolvePeriod utcZone ''custom'' (Some 1709251200000) (Some 1709337599999) 0 =
     Inr \<lparr>wStart = 1709251200000, wEnd = 1709337599999,
           wComparisonStart = 1709164800000, wComparisonEnd = 1709251199999,
           wChartType = hourly\<rparr>
   \<and> (1709164800000 \<noteq> 1709251200000 - (1709337599999 - (1709251200000 :: int)))
   \<and> (1709251199999 \<noteq> 1709337599999 - (1709337599999 - (1709251200000 :: int)))
   \<and> resolvePeriod utcZone ''custom'' (Some 1709251200000) (Some 1709294400000) 0 =
     Inr \<lparr>wStart = 1709251200000, wEnd = 1709294400000,
           wComparisonStart = 1709164800000, wComparisonEnd = 1709208000000,
           wChartType = hourly\<rparr>
   \<and> (1709164800000 \<noteq> 1709251200000 - (1709294400000 - (1709251200000 :: int)))
   \<and> (1709208000000 \<noteq> 1709294400000 - (1709294400000 - (1709251200000 :: int)))
   \<and> resolvePeriod newYorkZone ''custom'' (Some 1710046800000) (Some 1710133200000) 0 =
     Inr \<lparr>wStart = 1710046800000, wEnd = 1710133200000,
           wComparisonStart = 1709960400000, wComparisonEnd = 1710050400000,
           wChartType = hourly\<rparr>
   \<and> (1710050400000 \<noteq> 1710133200000 - (1710133200000 - (1710046800000 :: int)))"
  by code_simp

section \<open>The aggregate of a period\<close>





lemma twoPower_eq: "0 \<le> k \<Longrightarrow> twoPower k = 2 ^ nat k"
proof (induction k rule: twoPower.induct)
  case (1 k)
  show ?case
  proof (cases "k \<le> 0")
    case True
    with 1(2) have "k = 0" by simp
    then show ?thesis by (subst twoPower.simps) simp
  next
    case False
    then have "twoPower (k - 1) = 2 ^ nat (k - 1)" by (intro "1.IH") simp_all
    moreover from False have "nat k = Suc (nat (k - 1))" by simp
    ultimately show ?thesis using False by (subst twoPower.simps) simp
  qed
qed

lemma twoPower_pos: "0 < twoPower k"
proof (cases "0 \<le> k")
  case True
  then show ?thesis by (simp add: twoPower_eq)
next
  case False
  then show ?thesis by (subst twoPower.simps) simp
qed















text \<open>
  The sums and quotients are those of doubles, not of exact arithmetic. With one bill of
  1.00 and one of 1.01, which is stored as the double nearest to it, the operation returns
  the average 1.00: the double quotient is a little less than 1.005, and its product with
  100 a little less than 100.5; the exact average of the two stored amounts is a little
  more than 1.005, nearer to 1.01.
\<close>

lemma average_in_double_arithmetic:
  "getSalesForPeriodAggregated
       [''s@mims.in'' \<mapsto> \<lparr>storeEmail = ''s@mims.in'', stock = [],
          billingHistory = [exBillAt 1709290800000 1 [exLine ''PARA500'' 1],
                            exBillAt 1709296200000 (toDouble (101 / 100)) [exLine ''IBU200'' 1]]\<rparr>]
       ''s@mims.in'' 1709251200000 1709337599999
     = \<lparr>totalSales = toDouble (201 / 100), transactionCount = 2, itemsSold = 2,
        averageTransaction = 1\<rparr>
   \<and> fdiv (fadd 1 (toDouble (101 / 100))) 2 < 1005 / 1000
   \<and> fmul (fdiv (fadd 1 (toDouble (101 / 100))) 2) 100 < 1005 / 10
   \<and> 1005 / 1000 < (1 + toDouble (101 / 100)) / 2
   \<and> \<bar>101 / 100 - (1 + toDouble (101 / 100)) / 2\<bar> < \<bar>1 - (1 + toDouble (101 / 100)) / 2\<bar>"
  by code_simp

section \<open>The analytics cache\<close>

lemma getFromCache_after_set:
  "getFromCache key t (setCache key d t0 c) =
     (if t - t0 < CACHE_TTL then (Some d, setCache key d t0 c) else (None, c(key := None)))"
  by (simp add: getFromCache_def setCache_def)

lemma getSalesAnalytics_hit:
  assumes "resolvePeriod z period cs ce now = Inr w"
    and "analyticsCache s (getCacheKey email (wStart w) (wEnd w)) = Some en"
    and "now - ce_timestamp en < CACHE_TTL"
  shows "getSalesAnalytics z db s email period cs ce now = (Inr (ce_data en), s)"
  using assms by (simp add: getSalesAnalytics_def getFromCache_def Let_def)

lemma getFromCache_frame:
  assumes "key' \<noteq> key"
  shows "fst (getFromCache key t (setCache key' d' t' (setCache key d t0 c)))
           = (if t - t0 < CACHE_TTL then Some d else None)"
    and "fst (getFromCache key t (snd (getFromCache key' t' (setCache key d t0 c))))
           = (if t - t0 < CACHE_TTL then Some d else None)"
    and "snd (getFromCache key' t c) key = c key"
    and "setCache key' d' t' c key = c key"
  using assms by (auto simp: getFromCache_def setCache_def split: option.splits)

lemma getSalesAnalytics_miss:
  assumes "resolvePeriod z period cs ce now = Inr w"
    and "case analyticsCache s (getCacheKey email (wStart w) (wEnd w)) of
           None \<Rightarrow> True | Some en \<Rightarrow> CACHE_TTL \<le> now - ce_timestamp en"
  shows "getSalesAnalytics z db s email period cs ce now =
           (Inr (computeAnalytics z db email period w),
            \<lparr>analyticsCache = (analyticsCache s)(getCacheKey email (wStart w) (wEnd w) \<mapsto>
                 \<lparr>ce_data = computeAnalytics z db email period w, ce_timestamp = now\<rparr>),
             aggregateCalls = aggregateCalls s + 3\<rparr>)"
  using assms
  by (auto simp: getSalesAnalytics_def getFromCache_def Let_def setCache_def split: option.splits)

lemma getSalesAnalytics_miss_result:
  assumes res: "resolvePeriod z period cs ce now = Inr w"
    and miss: "case analyticsCache s (getCacheKey email (wStart w) (wEnd w)) of
           None \<Rightarrow> True | Some en \<Rightarrow> CACHE_TTL \<le> now - ce_timestamp en"
  shows "\<exists>r s'. getSalesAnalytics z db s email period cs ce now = (Inr r, s')
            \<and> res_current r = getSalesForPeriodAggregated db email (wStart w) (wEnd w)
            \<and> res_comparison r =
                Some (getSalesForPeriodAggregated db email (wComparisonStart w) (wComparisonEnd w))
            \<and> res_chartData r =
                (case wChartType w of
                   hourly \<Rightarrow> HourlyChart (getHourlyBreakdownAggregated z db email (wStart w))
                 | daily \<Rightarrow> DailyChart (getDailyBreakdownAggregated z db email (wStart w) (wEnd w))
                 | monthly \<Rightarrow> MonthlyChart (getMonthlyBreakdownAggregated z db email (wStart w) (wEnd w)))
            \<and> fst (getSalesAnalytics z db \<lparr>analyticsCache = Map.empty, aggregateCalls = 0\<rparr>
                      email period cs ce now) = Inr r
            \<and> aggregateCalls s' = aggregateCalls s + 3
            \<and> analyticsCache s' (getCacheKey email (wStart w) (wEnd w))
                = Some \<lparr>ce_data = r, ce_timestamp = now\<rparr>
            \<and> (\<forall>k. k \<noteq> getCacheKey email (wStart w) (wEnd w) \<longrightarrow>
                  analyticsCache s' k = analyticsCache s k)"
proof -
  have e: "fst (getSalesAnalytics z db \<lparr>analyticsCache = Map.empty, aggregateCalls = 0\<rparr>
                  email period cs ce now) = Inr (computeAnalytics z db email period w)"
    using getSalesAnalytics_miss [OF res, of "\<lparr>analyticsCache = Map.empty, aggregateCalls = 0\<rparr>" email db]
    by simp
  show ?thesis
    unfolding getSalesAnalytics_miss [OF res miss] e
    by (simp add: computeAnalytics_def Let_def)
qed

lemma getSalesAnalytics_leaves_entry:
  assumes "getSalesAnalytics z db s email period cs ce now = (Inr r, s1)"
  shows "\<exists>w t0. resolvePeriod z period cs ce now = Inr w
           \<and> analyticsCache s1 (getCacheKey email (wStart w) (wEnd w))
                = Some \<lparr>ce_data = r, ce_timestamp = t0\<rparr>
           \<and> now - t0 < CACHE_TTL"
proof (cases "resolvePeriod z period cs ce now")
  case (Inl e)
  with assms show ?thesis by (simp add: getSalesAnalytics_def)
next
  case (Inr w)
  let ?key = "getCacheKey email (wStart w) (wEnd w)"
  show ?thesis
  proof (cases "case analyticsCache s ?key of
           None \<Rightarrow> True | Some en \<Rightarrow> CACHE_TTL \<le> now - ce_timestamp en")
    case True
    from getSalesAnalytics_miss [OF Inr True, of db] assms
    have "analyticsCache s1 ?key = Some \<lparr>ce_data = r, ce_timestamp = now\<rparr>" by auto
    moreover have "now - now < CACHE_TTL" by (simp add: CACHE_TTL_def)
    ultimately show ?thesis using Inr by blast
  next
    case False
    then obtain en where en: "analyticsCache s ?key = Some en" "now - ce_timestamp en < CACHE_TTL"
      by (auto split: option.splits)
    from getSalesAnalytics_hit [OF Inr en, of db] assms
    have "r = ce_data en" "s1 = s" by simp_all
    with en have "analyticsCache s1 ?key = Some \<lparr>ce_data = r, ce_timestamp = ce_timestamp en\<rparr>"
      by simp
    with en(2) Inr show ?thesis by blast
  qed
qed

lemma getSalesAnalytics_repeat:
  assumes res: "resolvePeriod z period cs ce now = Inr w"
    and miss: "case analyticsCache s (getCacheKey email (wStart w) (wEnd w)) of
           None \<Rightarrow> True | Some en \<Rightarrow> CACHE_TTL \<le> now - ce_timestamp en"
    and call: "getSalesAnalytics z db s email period cs ce now = (Inr r, s1)"
    and res': "resolvePeriod z period' cs' ce' now' = Inr w'"
    and same: "wStart w' = wStart w" "wEnd w' = wEnd w"
    and young: "now' - now < CACHE_TTL"
  shows "getSalesAnalytics z db' s1 email period' cs' ce' now' = (Inr r, s1)"
proof -
  from getSalesAnalytics_miss [OF res miss, of db] call
  have "analyticsCache s1 (getCacheKey email (wStart w) (wEnd w))
          = Some \<lparr>ce_data = r, ce_timestamp = now\<rparr>" by auto
  with same have "analyticsCache s1 (getCacheKey email (wStart w') (wEnd w'))
          = Some \<lparr>ce_data = r, ce_timestamp = now\<rparr>" by simp
  from getSalesAnalytics_hit [OF res' this, of db'] young show ?thesis by simp
qed

text \<open>
  Claim C8. The time to live is five minutes. The cache key determines the store e-mail
  and the two dates of the window. A lookup of a key at time \<open>t\<close> after it was set at
  time \<open>t0\<close> returns the value that was set, and leaves the cache as it is, when
  \<open>t - t0\<close> is less than five minutes; otherwise it is a miss and the entry is removed.
  Setting or looking up another key in between changes neither this outcome nor the entry.
  Accordingly, a sales-analytics request whose window has an entry younger than five
  minutes returns the cached result and runs no aggregation (the state, with its count of
  aggregations, is unchanged). With an entry of five minutes or more, or with no entry, the
  result is computed afresh: it is the result that an empty cache gives, made of the
  aggregates of the two windows and of the chart; three aggregations are counted; the
  result is stored under the key with the time of the call, and the entries of the other
  keys are kept. After every successful request the cache holds the returned result under
  the key, younger than five minutes; and a request for the same store and window less than
  five minutes after a request that computed its result returns the same result, whatever
  has been sold in between, without aggregation.
\<close>

theorem analytics_cache_ttl:
  "CACHE_TTL = 5 * 60 * 1000
   \<and> (getCacheKey email a b = getCacheKey email' a' b' \<longleftrightarrow> email = email' \<and> a = a' \<and> b = b')
   \<and> getFromCache key t (setCache key d t0 c) =
       (if t - t0 < CACHE_TTL then (Some d, setCache key d t0 c) else (None, c(key := None)))
   \<and> (key' \<noteq> key \<longrightarrow>
        fst (getFromCache key t (setCache key' d' t' (setCache key d t0 c)))
          = (if t - t0 < CACHE_TTL then Some d else None)
        \<and> fst (getFromCache key t (snd (getFromCache key' t' (setCache key d t0 c))))
          = (if t - t0 < CACHE_TTL then Some d else None)
        \<and> snd (getFromCache key' t c) key = c key
        \<and> setCache key' d' t' c key = c key)
   \<and> (\<forall>w en. resolvePeriod z period cs ce now = Inr w
          \<and> analyticsCache s (getCacheKey email (wStart w) (wEnd w)) = Some en
          \<and> now - ce_timestamp en < CACHE_TTL \<longrightarrow>
          getSalesAnalytics z db s email period cs ce now = (Inr (ce_data en), s))
   \<and> (\<forall>w. resolvePeriod z period cs ce now = Inr w
          \<and> (case analyticsCache s (getCacheKey email (wStart w) (wEnd w)) of
                None \<Rightarrow> True | Some en \<Rightarrow> CACHE_TTL \<le> now - ce_timestamp en) \<longrightarrow>
          (\<exists>r s'. getSalesAnalytics z db s email period cs ce now = (Inr r, s')
            \<and> res_current r = getSalesForPeriodAggregated db email (wStart w) (wEnd w)
            \<and> res_comparison r =
                Some (getSalesForPeriodAggregated db email (wComparisonStart w) (wComparisonEnd w))
            \<and> res_chartData r =
                (case wChartType w of
                   hourly \<Rightarrow> HourlyChart (getHourlyBreakdownAggregated z db email (wStart w))
                 | daily \<Rightarrow> DailyChart (getDailyBreakdownAggregated z db email (wStart w) (wEnd w))
                 | monthly \<Rightarrow> MonthlyChart (getMonthlyBreakdownAggregated z db email (wStart w) (wEnd w)))
            \<and> fst (getSalesAnalytics z db \<lparr>analyticsCache = Map.empty, aggregateCalls = 0\<rparr>
                      email period cs ce now) = Inr r
            \<and> aggregateCalls s' = aggregateCalls s + 3
            \<and> analyticsCache s' (getCacheKey email (wStart w) (wEnd w))
                = Some \<lparr>ce_data = r, ce_timestamp = now\<rparr>
            \<and> (\<forall>k. k \<noteq> getCacheKey email (wStart w) (wEnd w) \<longrightarrow>
                  analyticsCache s' k = analyticsCache s k)))
   \<and> (\<forall>r s1. getSalesAnalytics z db s email period cs ce now = (Inr r, s1) \<longrightarrow>
          (\<exists>w t0. resolvePeriod z period cs ce now = Inr w
           \<and> analyticsCache s1 (getCacheKey email (wStart w) (wEnd w))
                = Some \<lparr>ce_data = r, ce_timestamp = t0\<rparr>
           \<and> now - t0 < CACHE_TTL))
   \<and> (\<forall>w w' r s1. resolvePeriod z period cs ce now = Inr w
          \<and> (case analyticsCache s (getCacheKey email (wStart w) (wEnd w)) of
                None \<Rightarrow> True | Some en \<Rightarrow> CACHE_TTL \<le> now - ce_timestamp en)
          \<and> getSalesAnalytics z db s email period cs ce now = (Inr r, s1)
          \<and> resolvePeriod z period' cs' ce' now' = Inr w'
          \<and> wStart w' = wStart w \<and> wEnd w' = wEnd w
          \<and> now' - now < CACHE_TTL \<longrightarrow>
          getSalesAnalytics z db' s1 email period' cs' ce' now' = (Inr r, s1))"
proof (intro conjI)
  show "CACHE_TTL = 5 * 60 * 1000" by (simp add: CACHE_TTL_def)
  show "getCacheKey email a b = getCacheKey email' a' b' \<longleftrightarrow> email = email' \<and> a = a' \<and> b = b'"
    by (simp add: getCacheKey_def)
  show "getFromCache key t (setCache key d t0 c) =
       (if t - t0 < CACHE_TTL then (Some d, setCache key d t0 c) else (None, c(key := None)))"
    by (rule getFromCache_after_set)
  show "key' \<noteq> key \<longrightarrow>
        fst (getFromCache key t (setCache key' d' t' (setCache key d t0 c)))
          = (if t - t0 < CACHE_TTL then Some d else None)
        \<and> fst (getFromCache key t (snd (getFromCache key' t' (setCache key d t0 c))))
          = (if t - t0 < CACHE_TTL then Some d else None)
        \<and> snd (getFromCache key' t c) key = c key
        \<and> setCache key' d' t' c key = c key"
    using getFromCache_frame [of key' key] by blast
  show "\<forall>w en. resolvePeriod z period cs ce now = Inr w
          \<and> analyticsCache s (getCacheKey email (wStart w) (wEnd w)) = Some en
          \<and> now - ce_timestamp en < CACHE_TTL \<longrightarrow>
          getSalesAnalytics z db s email period cs ce now = (Inr (ce_data en), s)"
    using getSalesAnalytics_hit by blast
  show "\<forall>w. resolvePeriod z period cs ce now = Inr w
          \<and> (case analyticsCache s (getCacheKey email (wStart w) (wEnd w)) of
                None \<Rightarrow> True | Some en \<Rightarrow> CACHE_TTL \<le> now - ce_timestamp en) \<longrightarrow>
          (\<exists>r s'. getSalesAnalytics z db s email period cs ce now = (Inr r, s')
            \<and> res_current r = getSalesForPeriodAggregated db email (wStart w) (wEnd w)
            \<and> res_comparison r =
                Some (getSalesForPeriodAggregated db email (wComparisonStart w) (wComparisonEnd w))
            \<and> res_chartData r =
                (case wChartType w of
                   hourly \<Rightarrow> HourlyChart (getHourlyBreakdownAggregated z db email (wStart w))
                 | daily \<Rightarrow> DailyChart (getDailyBreakdownAggregated z db email (wStart w) (wEnd w))
                 | monthly \<Rightarrow> MonthlyChart (getMonthlyBreakdownAggregated z db email (wStart w) (wEnd w)))
            \<and> fst (getSalesAnalytics z db \<lparr>analyticsCache = Map.empty, aggregateCalls = 0\<rparr>
                      email period cs ce now) = Inr r
            \<and> aggregateCalls s' = aggregateCalls s + 3
            \<and> analyticsCache s' (getCacheKey email (wStart w) (wEnd w))
                = Some \<lparr>ce_data = r, ce_timestamp = now\<rparr>
            \<and> (\<forall>k. k \<noteq> getCacheKey email (wStart w) (wEnd w) \<longrightarrow>
                  analyticsCache s' k = analyticsCache s k))"
    using getSalesAnalytics_miss_result by blast
  show "\<forall>r s1. getSalesAnalytics z db s email period cs ce now = (Inr r, s1) \<longrightarrow>
          (\<exists>w t0. resolvePeriod z period cs ce now = Inr w
           \<and> analyticsCache s1 (getCacheKey email (wStart w) (wEnd w))
                = Some \<lparr>ce_data = r, ce_timestamp = t0\<rparr>
           \<and> now - t0 < CACHE_TTL)"
    using getSalesAnalytics_leaves_entry by blast
  show "\<forall>w w' r s1. resolvePeriod z period cs ce now = Inr w
          \<and> (case analyticsCache s (getCacheKey email (wStart w) (wEnd w)) of
                None \<Rightarrow> True | Some en \<Rightarrow> CACHE_TTL \<le> now - ce_timestamp en)
          \<and> getSalesAnalytics z db s email period cs ce now = (Inr r, s1)
          \<and> resolvePeriod z period' cs' ce' now' = Inr w'
          \<and> wStart w' = wStart w \<and> wEnd w' = wEnd w
          \<and> now' - now < CACHE_TTL \<longrightarrow>
          getSalesAnalytics z db' s1 email period' cs' ce' now' = (Inr r, s1)"
    using getSalesAnalytics_repeat by blast
qed


lemma ex_today_window:
  "resolvePeriod utcZone ''today'' None None 1709294400000 =
     Inr \<lparr>wStart = 1709251200000, wEnd = 1709337599999,
           wComparisonStart = 1709164800000, wComparisonEnd = 1709251199999, wChartType = hourly\<rparr>"
  "resolvePeriod utcZone ''today'' None None 1709294699999 =
     Inr \<lparr>wStart = 1709251200000, wEnd = 1709337599999,
           wComparisonStart = 1709164800000, wComparisonEnd = 1709251199999, wChartType = hourly\<rparr>"
  "resolvePeriod utcZone ''today'' None None 1709294700000 =
     Inr \<lparr>wStart = 1709251200000, wEnd = 1709337599999,
           wComparisonStart = 1709164800000, wComparisonEnd = 1709251199999, wChartType = hourly\<rparr>"
  by code_simp+

lemma ex_today_sales:
  "totalSales (getSalesForPeriodAggregated exSalesDb ''s@mims.in'' 1709251200000 1709337599999) = 150"
  by code_simp

text \<open>
  The theorem in UTC on 1 March 2024: a first request at noon finds no entry and computes
  the result, with a total of 150, by three aggregations; a request 299999 milliseconds
  later returns the same result from the cache, even when the store has gone in between,
  and the count of aggregations stays at 3; a request 300000 milliseconds after the first
  one computes again, and the count is 6.
\<close>

theorem analytics_cache_ttl_witness:
  "analyticsCache emptyState (getCacheKey ''s@mims.in'' 1709251200000 1709337599999) = None
   \<and> 1709294699999 - 1709294400000 < CACHE_TTL
   \<and> CACHE_TTL \<le> 1709294700000 - 1709294400000
   \<and> (\<exists>r s1. getSalesAnalytics utcZone exSalesDb emptyState ''s@mims.in'' ''today'' None None
                 1709294400000 = (Inr r, s1)
        \<and> totalSales (res_current r) = 150
        \<and> aggregateCalls s1 = 3
        \<and> analyticsCache s1 (getCacheKey ''s@mims.in'' 1709251200000 1709337599999)
            = Some \<lparr>ce_data = r, ce_timestamp = 1709294400000\<rparr>
        \<and> getSalesAnalytics utcZone Map.empty s1 ''s@mims.in'' ''today'' None None 1709294699999
            = (Inr r, s1)
        \<and> aggregateCalls (snd (getSalesAnalytics utcZone exSalesDb s1 ''s@mims.in'' ''today'' None
              None 1709294700000)) = 6)"
proof -
  let ?w = "\<lparr>wStart = 1709251200000, wEnd = 1709337599999,
           wComparisonStart = 1709164800000, wComparisonEnd = 1709251199999, wChartType = hourly\<rparr>"
  let ?key = "getCacheKey ''s@mims.in'' 1709251200000 1709337599999"
  have k: "getCacheKey ''s@mims.in'' (wStart ?w) (wEnd ?w) = ?key" by simp
  have h0: "analyticsCache emptyState ?key = None" by (simp add: emptyState_def)
  then have m0: "case analyticsCache emptyState (getCacheKey ''s@mims.in'' (wStart ?w) (wEnd ?w)) of
                None \<Rightarrow> True | Some en \<Rightarrow> CACHE_TTL \<le> 1709294400000 - ce_timestamp en"
    by simp
  have t1: "1709294699999 - 1709294400000 < CACHE_TTL" by (simp add: CACHE_TTL_def)
  have t2: "CACHE_TTL \<le> 1709294700000 - 1709294400000" by (simp add: CACHE_TTL_def)
  note first = analytics_cache_ttl [where z = utcZone and period = "''today''" and cs = None
      and ce = None and now = 1709294400000 and s = emptyState and email = "''s@mims.in''"
      and db = exSalesDb and period' = "''today''" and cs' = None and ce' = None
      and now' = 1709294699999 and db' = Map.empty]
  note miss1 = first [THEN conjunct2, THEN conjunct2, THEN conjunct2, THEN conjunct2,
      THEN conjunct2, THEN conjunct1, rule_format, of ?w]
  note repeat1 = first [THEN conjunct2, THEN conjunct2, THEN conjunct2, THEN conjunct2,
      THEN conjunct2, THEN conjunct2, THEN conjunct2, rule_format, of ?w _ _ ?w]
  from miss1 [OF conjI [OF ex_today_window(1) m0]]
  obtain r s1 where c1: "getSalesAnalytics utcZone exSalesDb emptyState ''s@mims.in'' ''today'' None None
                 1709294400000 = (Inr r, s1)"
    and cur: "res_current r = getSalesForPeriodAggregated exSalesDb ''s@mims.in'' (wStart ?w) (wEnd ?w)"
    and a1: "aggregateCalls s1 = aggregateCalls emptyState + 3"
    and e1: "analyticsCache s1 (getCacheKey ''s@mims.in'' (wStart ?w) (wEnd ?w))
            = Some \<lparr>ce_data = r, ce_timestamp = 1709294400000\<rparr>"
    by blast
  from cur have tot: "totalSales (res_current r) = 150" by (simp add: ex_today_sales)
  from a1 have a1': "aggregateCalls s1 = 3" by (simp add: emptyState_def)
  from e1 have e1': "analyticsCache s1 ?key = Some \<lparr>ce_data = r, ce_timestamp = 1709294400000\<rparr>"
    by simp
  have c2: "getSalesAnalytics utcZone Map.empty s1 ''s@mims.in'' ''today'' None None 1709294699999
            = (Inr r, s1)"
    using ex_today_window(1) ex_today_window(2) m0 c1 t1 by (intro repeat1) simp_all
  from e1 t2
  have m2: "case analyticsCache s1 (getCacheKey ''s@mims.in'' (wStart ?w) (wEnd ?w)) of
                None \<Rightarrow> True | Some en \<Rightarrow> CACHE_TTL \<le> 1709294700000 - ce_timestamp en"
    by simp
  note miss3 = analytics_cache_ttl [where z = utcZone and period = "''today''" and cs = None
      and ce = None and now = 1709294700000 and s = s1 and email = "''s@mims.in''"
      and db = exSalesDb, THEN conjunct2, THEN conjunct2, THEN conjunct2, THEN conjunct2,
      THEN conjunct2, THEN conjunct1, rule_format, of ?w]
  from miss3 [OF conjI [OF ex_today_window(3) m2]]
  obtain r' s3 where "getSalesAnalytics utcZone exSalesDb s1 ''s@mims.in'' ''today'' None None
                 1709294700000 = (Inr r', s3)" and "aggregateCalls s3 = aggregateCalls s1 + 3"
    by blast
  with a1' have c3: "aggregateCalls (snd (getSalesAnalytics utcZone exSalesDb s1 ''s@mims.in'' ''today''
              None None 1709294700000)) = 6"
    by simp
  from h0 t1 t2 c1 tot a1' e1' c2 c3 show ?thesis by blast
qed

section \<open>Unrecognised period names\<close>

text \<open>
  Claim C9, as amended. The sales-analytics operation fails with \<open>INVALID_PERIOD\<close> for
  every period that is not one of today, yesterday, thisWeek, thisMonth, thisYear, and is
  not custom with both dates given; the state is unchanged: neither the cache nor the
  storage has been accessed. The top-selling operation never fails with
  \<open>INVALID_PERIOD\<close>: it runs its aggregation for every period name, and treats every name
  other than today, thisWeek and thisYear as thisMonth.
\<close>

theorem unrecognised_period:
  "(period \<notin> {''today'', ''yesterday'', ''thisWeek'', ''thisMonth'', ''thisYear''}
      \<and> \<not> (period = ''custom'' \<and> customStart \<noteq> None \<and> customEnd \<noteq> None) \<longrightarrow>
      getSalesAnalytics z db s email period customStart customEnd now = (Inl INVALID_PERIOD, s))
   \<and> fst (getTopSellingMedicines z db s email period limit now) \<noteq> Inl INVALID_PERIOD
   \<and> aggregateCalls (snd (getTopSellingMedicines z db s email period limit now))
       = aggregateCalls s + 1
   \<and> (period \<notin> {''today'', ''thisWeek'', ''thisYear''} \<longrightarrow>
        getTopSellingMedicines z db s email period limit now
          = getTopSellingMedicines z db s email ''thisMonth'' limit now)"
proof (intro conjI impI)
  assume "period \<notin> {''today'', ''yesterday'', ''thisWeek'', ''thisMonth'', ''thisYear''}
      \<and> \<not> (period = ''custom'' \<and> customStart \<noteq> None \<and> customEnd \<noteq> None)"
  then have "resolvePeriod z period customStart customEnd now = Inl INVALID_PERIOD"
    by (auto simp: resolvePeriod_def)
  then show "getSalesAnalytics z db s email period customStart customEnd now = (Inl INVALID_PERIOD, s)"
    by (simp add: getSalesAnalytics_def)
next
  show "fst (getTopSellingMedicines z db s email period limit now) \<noteq> Inl INVALID_PERIOD"
    by (simp add: getTopSellingMedicines_def Let_def)
next
  show "aggregateCalls (snd (getTopSellingMedicines z db s email period limit now))
       = aggregateCalls s + 1"
    by (simp add: getTopSellingMedicines_def Let_def)
next
  assume "period \<notin> {''today'', ''thisWeek'', ''thisYear''}"
  then show "getTopSellingMedicines z db s email period limit now
          = getTopSellingMedicines z db s email ''thisMonth'' limit now"
    by (simp add: getTopSellingMedicines_def)
qed

lemma ex_top_selling:
  "fst (getTopSellingMedicines utcZone exSalesDb emptyState ''s@mims.in'' ''thisMonth'' 10 1710504000000)
     = Inr [\<lparr>ti_medID = Some ''PARA500'', ti_name = Some ''PARA500'', ti_quantity = 65, ti_revenue = 130\<rparr>,
            \<lparr>ti_medID = Some ''IBU200'', ti_name = Some ''IBU200'', ti_quantity = 50, ti_revenue = 100\<rparr>,
            \<lparr>ti_medID = Some ''CETZ10'', ti_name = Some ''CETZ10'', ti_quantity = 20, ti_revenue = 40\<rparr>]"
  by code_simp

text \<open>
  The theorem on 15 March 2024 for the period name lastDecade: the sales-analytics
  operation fails, and the top-selling operation answers as for thisMonth.
\<close>

theorem unrecognised_period_witness:
  "''lastDecade'' \<notin> {''today'', ''yesterday'', ''thisWeek'', ''thisMonth'', ''thisYear''}
   \<and> ''lastDecade'' \<noteq> ''custom''
   \<and> getSalesAnalytics utcZone exSalesDb emptyState ''s@mims.in'' ''lastDecade'' None None 1710504000000
       = (Inl INVALID_PERIOD, emptyState)
   \<and> getTopSellingMedicines utcZone exSalesDb emptyState ''s@mims.in'' ''lastDecade'' 10 1710504000000
       = getTopSellingMedicines utcZone exSalesDb emptyState ''s@mims.in'' ''thisMonth'' 10 1710504000000"
proof -
  have h1: "''lastDecade'' \<notin> {''today'', ''yesterday'', ''thisWeek'', ''thisMonth'', ''thisYear''}"
    by simp
  have h2: "''lastDecade'' \<noteq> ''custom''" by simp
  have h3: "''lastDecade'' \<notin> {''today'', ''thisWeek'', ''thisYear''}" by simp
  from unrecognised_period [of "''lastDecade''" None None utcZone exSalesDb emptyState "''s@mims.in''"
      1710504000000 10] h1 h2 h3
  show ?thesis by blast
qed

text \<open>
  Claim C9 as stated fails for the top-selling operation: for the period name lastDecade
  it returns the ranking of the current month, after one aggregation.
\<close>

theorem unrecognised_period_counterexample:
  "fst (getTopSellingMedicines utcZone exSalesDb emptyState ''s@mims.in'' ''lastDecade'' 10 1710504000000)
     = Inr [\<lparr>ti_medID = Some ''PARA500'', ti_name = Some ''PARA500'', ti_quantity = 65, ti_revenue = 130\<rparr>,
            \<lparr>ti_medID = Some ''IBU200'', ti_name = Some ''IBU200'', ti_quantity = 50, ti_revenue = 100\<rparr>,
            \<lparr>ti_medID = Some ''CETZ10'', ti_name = Some ''CETZ10'', ti_quantity = 20, ti_revenue = 40\<rparr>]
   \<and> aggregateCalls (snd (getTopSellingMedicines utcZone exSalesDb emptyState ''s@mims.in'' ''lastDecade'' 10
         1710504000000)) = 1"
  by code_simp

section \<open>The buckets of a chart\<close>

lemma groupAdd_keys: "set (map fst (groupAdd k a gs)) = insert k (set (map fst gs))"
  by (induction k a gs rule: groupAdd.induct) auto

lemma groupFold_keys:
  "set (map fst (groupFold key bills gs)) = key ` set bills \<union> set (map fst gs)"
proof (induction bills arbitrary: gs)
  case Nil
  show ?case by simp
next
  case (Cons b bills)
  have "set (map fst (groupFold key (b # bills) gs))
      = set (map fst (groupFold key bills (groupAdd (key b) (totalAmount b) gs)))" by simp
  also have "\<dots> = key ` set bills \<union> set (map fst (groupAdd (key b) (totalAmount b) gs))"
    by (rule Cons.IH)
  also have "\<dots> = key ` set (b # bills) \<union> set (map fst gs)"
    unfolding groupAdd_keys by auto
  finally show ?case .
qed

lemma groupSales_keys: "fst ` set (groupSales key bills) = key ` set bills"
proof -
  have "fst ` set (groupSales key bills) = set (map fst (groupFold key bills []))"
    by (simp add: groupSales_def)
  also have "\<dots> = key ` set bills" unfolding groupFold_keys by simp
  finally show ?thesis .
qed

text \<open>A bucket whose key no bill of the window has is filled with zeros.\<close>

lemma bucket_zero_fill:
  assumes "k \<notin> key ` set bills"
  shows "foundSales (find (\<lambda>r. fst r = k) (groupSales key bills)) = 0"
    and "foundTransactions (find (\<lambda>r. fst r = k) (groupSales key bills)) = 0"
proof -
  from assms groupSales_keys [of key bills]
  have "\<not> (\<exists>r \<in> set (groupSales key bills). fst r = k)" by force
  then have "find (\<lambda>r. fst r = k) (groupSales key bills) = None"
    by (auto simp: find_None_iff)
  then show "foundSales (find (\<lambda>r. fst r = k) (groupSales key bills)) = 0"
    and "foundTransactions (find (\<lambda>r. fst r = k) (groupSales key bills)) = 0"
    by (simp_all add: foundSales_def foundTransactions_def)
qed

text \<open>The hourly chart always has the 24 buckets 00:00 to 23:00, in this order.\<close>

lemma hour_labels:
  "map (\<lambda>h. padStart 2 (showDigits (int h)) @ '':00'') [0..<24] =
     [''00:00'', ''01:00'', ''02:00'', ''03:00'', ''04:00'', ''05:00'', ''06:00'', ''07:00'',
      ''08:00'', ''09:00'', ''10:00'', ''11:00'', ''12:00'', ''13:00'', ''14:00'', ''15:00'',
      ''16:00'', ''17:00'', ''18:00'', ''19:00'', ''20:00'', ''21:00'', ''22:00'', ''23:00'']"
  by code_simp

lemma hourly_buckets:
  "length (getHourlyBreakdownAggregated z db email t) = 24"
  "map h_hour (getHourlyBreakdownAggregated z db email t) =
     [''00:00'', ''01:00'', ''02:00'', ''03:00'', ''04:00'', ''05:00'', ''06:00'', ''07:00'',
      ''08:00'', ''09:00'', ''10:00'', ''11:00'', ''12:00'', ''13:00'', ''14:00'', ''15:00'',
      ''16:00'', ''17:00'', ''18:00'', ''19:00'', ''20:00'', ''21:00'', ''22:00'', ''23:00'']"
proof -
  show "length (getHourlyBreakdownAggregated z db email t) = 24"
    by (simp add: getHourlyBreakdownAggregated_def Let_def)
  have "map h_hour (getHourlyBreakdownAggregated z db email t)
          = map (\<lambda>h. padStart 2 (showDigits (int h)) @ '':00'') [0..<24]"
    unfolding getHourlyBreakdownAggregated_def Let_def map_map by (rule map_cong) simp_all
  then show "map h_hour (getHourlyBreakdownAggregated z db email t) =
     [''00:00'', ''01:00'', ''02:00'', ''03:00'', ''04:00'', ''05:00'', ''06:00'', ''07:00'',
      ''08:00'', ''09:00'', ''10:00'', ''11:00'', ''12:00'', ''13:00'', ''14:00'', ''15:00'',
      ''16:00'', ''17:00'', ''18:00'', ''19:00'', ''20:00'', ''21:00'', ''22:00'', ''23:00'']"
    by (simp only: hour_labels)
qed

text \<open>
  On a server without daylight saving time, the daily chart has one bucket for the start
  date and one for every 24 hours after it up to the end date.
\<close>

lemma setDate_next_fixed:
  assumes "dstPeriods z = []"
  shows "setDate z t (getDate z t + 1) = t + msPerDay"
  using setDate_shift [OF assms, of t 1] by simp

lemma dailyLoop_length:
  assumes "dstPeriods z = []"
  shows "length (dailyLoop z result current endDate) =
     (if current \<le> endDate then nat ((endDate - current) div msPerDay + 1) else 0)"
  using assms
proof (induction z result current endDate rule: dailyLoop.induct)
  case (1 z result current endDate)
  note fixed = \<open>dstPeriods z = []\<close>
  show ?case
  proof (cases "current \<le> endDate")
    case False
    then show ?thesis by (subst dailyLoop.simps) simp
  next
    case True
    have pos: "0 < msPerDay" by (simp add: msPerDay_def)
    from True have len: "length (dailyLoop z result current endDate) =
        Suc (length (dailyLoop z result (current + msPerDay) endDate))"
      by (subst dailyLoop.simps) (simp add: setDate_next_fixed [OF fixed] Let_def)
    from "1.IH" [OF True fixed] have ih: "length (dailyLoop z result (current + msPerDay) endDate) =
        (if current + msPerDay \<le> endDate
         then nat ((endDate - (current + msPerDay)) div msPerDay + 1) else 0)"
      by (simp add: setDate_next_fixed [OF fixed])
    show ?thesis
    proof (cases "current + msPerDay \<le> endDate")
      case False
      with True have "0 \<le> endDate - current" "endDate - current < msPerDay" by simp_all
      then have "(endDate - current) div msPerDay = 0" by simp
      with True False len ih show ?thesis by simp
    next
      case next_in: True
      have "((endDate - (current + msPerDay)) + 1 * msPerDay) div msPerDay
              = 1 + (endDate - (current + msPerDay)) div msPerDay"
        by (rule div_mult_self1) (use pos in simp)
      then have "(endDate - current) div msPerDay = (endDate - (current + msPerDay)) div msPerDay + 1"
        by simp
      moreover from next_in pos have "0 \<le> (endDate - (current + msPerDay)) div msPerDay"
        by (simp add: pos_imp_zdiv_nonneg_iff)
      ultimately show ?thesis using True next_in len ih by simp
    qed
  qed
qed

lemma span_days:
  assumes "s \<le> e"
  shows "(e - s) div msPerDay =
           Day e - Day s - (if TimeWithinDay s \<le> TimeWithinDay e then 0 else 1)"
proof -
  have pos: "0 < msPerDay" by (simp add: msPerDay_def)
  have r: "0 \<le> TimeWithinDay s" "TimeWithinDay s < msPerDay"
    "0 \<le> TimeWithinDay e" "TimeWithinDay e < msPerDay"
    using pos by (simp_all add: TimeWithinDay_def)
  show ?thesis
  proof (cases "TimeWithinDay s \<le> TimeWithinDay e")
    case True
    have "e - s = (TimeWithinDay e - TimeWithinDay s) + (Day e - Day s) * msPerDay"
      using Day_decompose [of e] Day_decompose [of s] by (simp add: algebra_simps)
    moreover have "((TimeWithinDay e - TimeWithinDay s) + (Day e - Day s) * msPerDay) div msPerDay
        = (Day e - Day s) + (TimeWithinDay e - TimeWithinDay s) div msPerDay"
      by (rule div_mult_self1) (use pos in simp)
    ultimately have "(e - s) div msPerDay =
        (Day e - Day s) + (TimeWithinDay e - TimeWithinDay s) div msPerDay"
      by simp
    moreover from True r have "(TimeWithinDay e - TimeWithinDay s) div msPerDay = 0" by simp
    ultimately show ?thesis using True by simp
  next
    case False
    have "e - s = (msPerDay + TimeWithinDay e - TimeWithinDay s) + (Day e - Day s - 1) * msPerDay"
      using Day_decompose [of e] Day_decompose [of s] by (simp add: algebra_simps)
    moreover have "((msPerDay + TimeWithinDay e - TimeWithinDay s) + (Day e - Day s - 1) * msPerDay)
          div msPerDay
        = (Day e - Day s - 1) + (msPerDay + TimeWithinDay e - TimeWithinDay s) div msPerDay"
      by (rule div_mult_self1) (use pos in simp)
    ultimately have "(e - s) div msPerDay =
        (Day e - Day s - 1) + (msPerDay + TimeWithinDay e - TimeWithinDay s) div msPerDay"
      by simp
    moreover from False r have "(msPerDay + TimeWithinDay e - TimeWithinDay s) div msPerDay = 0"
      by simp
    ultimately show ?thesis using False by simp
  qed
qed

text \<open>
  Hence the daily chart has one bucket for each day from the day of the start date to
  the day of the end date when the start date is not later in its day than the end date is
  in its own; otherwise it has one bucket less, and the day of the end date has none.
\<close>

lemma daily_bucket_count:
  assumes fixed: "dstPeriods z = []" and le: "s \<le> e"
  shows "int (length (getDailyBreakdownAggregated z db email s e)) =
           Day e - Day s + 1 - (if TimeWithinDay s \<le> TimeWithinDay e then 0 else 1)"
proof -
  have n: "0 \<le> (e - s) div msPerDay"
    using le by (simp add: pos_imp_zdiv_nonneg_iff msPerDay_def)
  have "int (length (getDailyBreakdownAggregated z db email s e)) = (e - s) div msPerDay + 1"
    using le n by (simp add: getDailyBreakdownAggregated_def Let_def dailyLoop_length [OF fixed])
  with span_days [OF le] show ?thesis by simp
qed

text \<open>
  Claim C6, on a server in UTC, at a custom window from 1 March 2024, 10:00, to 5 March
  2024, 09:00, which is charted daily. The range covers five calendar days, and the bill of 5 March, 08:00,
  lies in the window and is counted in the total of the period (270); but the loop steps
  from 10:00 to 10:00 and stops before 5 March, so the chart has the four buckets of 1 to
  4 March only, and the sales of its buckets add up to 230.
\<close>

theorem daily_breakdown_misses_last_day:
  "resolvePeriod utcZone ''custom'' (Some 1709287200000) (Some 1709629200000) 0 =
     Inr \<lparr>wStart = 1709287200000, wEnd = 1709629200000,
           wComparisonStart = 1708941600000, wComparisonEnd = 1709283600000,
           wChartType = daily\<rparr>
   \<and> isoDate 1709287200000 = ''2024-03-01'' \<and> isoDate 1709629200000 = ''2024-03-05''
   \<and> Day 1709629200000 - Day 1709287200000 + 1 = 5
   \<and> getDailyBreakdownAggregated utcZone exSalesDb ''s@mims.in'' 1709287200000 1709629200000 =
       [\<lparr>d_date = ''2024-03-01'', d_label = ''Fri, Mar 1'', d_sales = 150, d_transactions = 3\<rparr>,
        \<lparr>d_date = ''2024-03-02'', d_label = ''Sat, Mar 2'', d_sales = 80, d_transactions = 2\<rparr>,
        \<lparr>d_date = ''2024-03-03'', d_label = ''Sun, Mar 3'', d_sales = 0, d_transactions = 0\<rparr>,
        \<lparr>d_date = ''2024-03-04'', d_label = ''Mon, Mar 4'', d_sales = 0, d_transactions = 0\<rparr>]
   \<and> totalSales (getSalesForPeriodAggregated exSalesDb ''s@mims.in'' 1709287200000 1709629200000)
       = 270"
  by code_simp

section \<open>The year of a day\<close>

lemma leap_days_bound:
  fixes k :: int
  shows "400 * ((k + 1) div 4 - (k + 69) div 100 + (k + 369) div 400) \<le> 97 * k + 589"
proof -
  define a where "a = (k + 1) div 4"
  define b where "b = (k + 69) div 100"
  define c where "c = (k + 369) div 400"
  define ra where "ra = (k + 1) mod 4"
  define rb where "rb = (k + 69) mod 100"
  define rc where "rc = (k + 369) mod 400"
  have "k + 1 = 4 * a + ra" "0 \<le> ra" by (simp_all add: a_def ra_def)
  then have 1: "400 * a \<le> 100 * k + 100" by linarith
  have "rb < 100" by (simp add: rb_def)
  moreover have "k + 69 = 100 * b + rb" by (simp add: b_def rb_def)
  ultimately have 2: "4 * k - 120 \<le> 400 * b" by linarith
  have "k + 369 = 400 * c + rc" "0 \<le> rc" by (simp_all add: c_def rc_def)
  then have 3: "400 * c \<le> k + 369" by linarith
  have "400 * (a - b + c) = 400 * a - 400 * b + 400 * c" by (simp add: algebra_simps)
  with 1 2 3 have "400 * (a - b + c) \<le> 97 * k + 589" by linarith
  then show ?thesis by (simp only: a_def b_def c_def)
qed

lemma DayFromYear_offset:
  "DayFromYear (1970 + k) = 365 * k + ((k + 1) div 4 - (k + 69) div 100 + (k + 369) div 400)"
  by (simp add: DayFromYear_def algebra_simps)

lemma DayFromYear_estimate:
  "DayFromYear (1970 + (if 0 \<le> d then d div 366 else d div 365)) \<le> d"
proof (cases "0 \<le> d")
  case True
  define k where "k = d div 366"
  define r where "r = d mod 366"
  define L where "L = (k + 1) div 4 - (k + 69) div 100 + (k + 369) div 400"
  have k: "0 \<le> k" using True by (simp add: k_def pos_imp_zdiv_nonneg_iff)
  have "d = 366 * k + r" "0 \<le> r" by (simp_all add: k_def r_def)
  then have d: "366 * k \<le> d" by linarith
  have y: "DayFromYear (1970 + k) = 365 * k + L"
    unfolding L_def by (rule DayFromYear_offset)
  have "L \<le> k"
  proof (cases "k = 0")
    case True
    then show ?thesis by (simp add: L_def)
  next
    case False
    with k have "1 \<le> k" by simp
    moreover have "400 * L \<le> 97 * k + 589" unfolding L_def by (rule leap_days_bound)
    ultimately show ?thesis by linarith
  qed
  with y d have "DayFromYear (1970 + k) \<le> d" by linarith
  with True show ?thesis by (simp add: k_def)
next
  case False
  define k where "k = d div 365"
  define r where "r = d mod 365"
  define L where "L = (k + 1) div 4 - (k + 69) div 100 + (k + 369) div 400"
  have k: "k < 0" using False by (simp add: k_def div_neg_pos_less0)
  have "d = 365 * k + r" "0 \<le> r" by (simp_all add: k_def r_def)
  then have d: "365 * k \<le> d" by linarith
  have y: "DayFromYear (1970 + k) = 365 * k + L"
    unfolding L_def by (rule DayFromYear_offset)
  have "L \<le> 0"
  proof (cases "k = - 1")
    case True
    then show ?thesis by (simp add: L_def)
  next
    case False
    with k have "k \<le> - 2" by simp
    moreover have "400 * L \<le> 97 * k + 589" unfolding L_def by (rule leap_days_bound)
    ultimately show ?thesis by linarith
  qed
  with y d have "DayFromYear (1970 + k) \<le> d" by linarith
  with False show ?thesis by (simp add: k_def)
qed

lemma yearFrom_correct:
  "DayFromYear y \<le> d \<Longrightarrow>
     DayFromYear (yearFrom y d) \<le> d \<and> d < DayFromYear (yearFrom y d + 1)"
proof (induction y d rule: yearFrom.induct)
  case (1 y d)
  show ?case
  proof (cases "DayFromYear (y + 1) \<le> d")
    case True
    from "1.IH" [OF True True] True show ?thesis
      by (subst (1 2) yearFrom.simps) simp
  next
    case False
    with "1.prems" show ?thesis
      by (subst (1 2) yearFrom.simps) simp
  qed
qed

text \<open>
  \<open>YearFromDay\<close> is the year of the day: the year starts on or before the day, and the
  next year starts after it. So the day within the year is in the range of the days of that
  year.
\<close>

lemma YearFromDay_correct:
  "DayFromYear (YearFromDay d) \<le> d \<and> d < DayFromYear (YearFromDay d + 1)"
  unfolding YearFromDay_def by (rule yearFrom_correct) (rule DayFromYear_estimate)

lemma DayWithinYear_range:
  "0 \<le> DayWithinYear t \<and> DayWithinYear t < (if isLeap (YearFromTime t) then 366 else 365)"
  using YearFromDay_correct [of "Day t"] DayFromYear_step [of "YearFromTime t"]
  by (simp add: DayWithinYear_def YearFromTime_def split: if_splits)

lemma WeekDay_range: "0 \<le> WeekDay t \<and> WeekDay t \<le> 6"
  by (simp add: WeekDay_def)

end
